theory Spec2Isabelle
  imports Complex_Main "HOL-Library.Word"
begin

unbundle bit_operations_syntax

section \<open>Costs: single-precision values with their special cases\<close>

text \<open>
  \<open>BaseFloat\<close> (and \<open>CostType\<close>, a typedef of it) is a C \<open>float\<close>. The model keeps the
  four kinds of value the decoder's comparisons tell apart: NaN, the two infinities and
  the finite values. Finite arithmetic is exact: rounding is left out, the special cases
  (NaN propagation, infinity minus infinity, comparisons with NaN being false) are the
  IEEE-754 ones.
\<close>

datatype BaseFloat = NaN | MInf | Fin real | PInf

type_synonym CostType = BaseFloat

definition INFINITY :: BaseFloat where
  "INFINITY = PInf"

definition FLT_MAX :: BaseFloat where
  "FLT_MAX = Fin 340282346638528859811704183484516925440"

fun isnan :: "BaseFloat \<Rightarrow> bool" where
  "isnan NaN = True"
| "isnan _ = False"

fun fneg :: "BaseFloat \<Rightarrow> BaseFloat" where
  "fneg NaN = NaN"
| "fneg MInf = PInf"
| "fneg PInf = MInf"
| "fneg (Fin x) = Fin (- x)"

fun fadd :: "BaseFloat \<Rightarrow> BaseFloat \<Rightarrow> BaseFloat" where
  "fadd NaN _ = NaN"
| "fadd _ NaN = NaN"
| "fadd PInf MInf = NaN"
| "fadd MInf PInf = NaN"
| "fadd PInf _ = PInf"
| "fadd _ PInf = PInf"
| "fadd MInf _ = MInf"
| "fadd _ MInf = MInf"
| "fadd (Fin x) (Fin y) = Fin (x + y)"

definition fsub :: "BaseFloat \<Rightarrow> BaseFloat \<Rightarrow> BaseFloat" where
  "fsub a b = fadd a (fneg b)"

text \<open>\<open>a < b\<close> on floats: false as soon as one side is NaN.\<close>

fun flt :: "BaseFloat \<Rightarrow> BaseFloat \<Rightarrow> bool" where
  "flt NaN _ = False"
| "flt _ NaN = False"
| "flt (Fin x) (Fin y) = (x < y)"
| "flt MInf MInf = False"
| "flt MInf _ = True"
| "flt _ MInf = False"
| "flt PInf _ = False"
| "flt _ PInf = True"

text \<open>\<open>a <= b\<close> on floats: false as soon as one side is NaN.\<close>

fun fle :: "BaseFloat \<Rightarrow> BaseFloat \<Rightarrow> bool" where
  "fle NaN _ = False"
| "fle _ NaN = False"
| "fle (Fin x) (Fin y) = (x \<le> y)"
| "fle MInf _ = True"
| "fle _ PInf = True"
| "fle _ MInf = False"
| "fle PInf _ = False"

text \<open>\<open>a > b\<close> is \<open>b < a\<close>; \<open>a != b\<close> is true when one side is NaN.\<close>

definition fgt :: "BaseFloat \<Rightarrow> BaseFloat \<Rightarrow> bool" where
  "fgt a b = flt b a"

definition fne :: "BaseFloat \<Rightarrow> BaseFloat \<Rightarrow> bool" where
  "fne a b = (isnan a \<or> isnan b \<or> a \<noteq> b)"

text \<open>\<open>x / 2\<close>, the only division of the pruning code.\<close>

fun fhalf :: "BaseFloat \<Rightarrow> BaseFloat" where
  "fhalf (Fin x) = Fin (x / 2)"
| "fhalf v = v"

text \<open>
  Modelled from the spec: \<open>atomic_min\<close> lives in cuda-decoder-utils.h, which is not part
  of the sources at hand. The spec calls it an atomic minimum into the target: the target
  takes the value when the value is smaller and keeps its own otherwise.
\<close>

definition atomic_min :: "BaseFloat \<Rightarrow> BaseFloat \<Rightarrow> BaseFloat" where
  "atomic_min old val = (if flt val old then val else old)"

section \<open>Faults\<close>

text \<open>
  A failed \<open>assert\<close> stops the kernel; the string names the asserted expression. The only
  other way the device code fails to return is the wait loop of \<open>_find_or_add_token_arc\<close>:
  for a single worker its condition cannot change, so the loop spins forever when it is
  entered with the condition true.
\<close>

datatype fault = AssertionFailed string | SpinsForever

definition thenF :: "fault + 'a \<Rightarrow> ('a \<Rightarrow> fault + 'b) \<Rightarrow> fault + 'b" where
  "thenF m f = (case m of Inl e \<Rightarrow> Inl e | Inr x \<Rightarrow> f x)"

definition assertF :: "bool \<Rightarrow> string \<Rightarrow> fault + unit" where
  "assertF b msg = (if b then Inr () else Inl (AssertionFailed msg))"

fun foldF :: "('a \<Rightarrow> 's \<Rightarrow> fault + 's) \<Rightarrow> 'a list \<Rightarrow> 's \<Rightarrow> fault + 's" where
  "foldF f [] s = Inr s"
| "foldF f (x # xs) s = (case f x s of Inl e \<Rightarrow> Inl e | Inr s' \<Rightarrow> foldF f xs s')"

text \<open>\<open>okF Q m\<close>: if the computation \<open>m\<close> returns, its result satisfies \<open>Q\<close>.\<close>

definition okF :: "('a \<Rightarrow> bool) \<Rightarrow> fault + 'a \<Rightarrow> bool" where
  "okF Q m = (case m of Inl e \<Rightarrow> True | Inr x \<Rightarrow> Q x)"

text \<open>The indices a single worker visits in \<open>for (tid = 0; tid < size; tid += 1)\<close>.\<close>

definition tids :: "int \<Rightarrow> int list" where
  "tids n = map int [0..<nat n]"

section \<open>Tokens\<close>

record Token =
  cost :: CostType
  frame :: int
  extra_cost :: BaseFloat
  state_id :: int

text \<open>
  \<open>Token::Token(cost, frame, prev)\<close> of cuda-lattice-decoder.h. The field \<open>cost\<close> is the
  source's \<open>cost_\<close> (a name cannot end with an underscore here). The constructor leaves
  \<open>state_id\<close> unassigned and nothing reads it; the model fixes it to 0.
\<close>

definition Token_ctor :: "BaseFloat \<Rightarrow> int \<Rightarrow> Token option \<Rightarrow> Token" where
  "Token_ctor c fr prev =
     \<lparr> cost = (case prev of None \<Rightarrow> c | Some p \<Rightarrow> fadd c (cost p)),
       frame = fr, extra_cost = Fin 0, state_id = 0 \<rparr>"


section \<open>Lattice arcs\<close>

text \<open>
  Modelled from the spec: the class \<open>LatLinkCompact\<close> is declared in a header that is not
  part of the sources at hand. Its fields are the six arguments the decoder constructs it
  from (previous TokenState id and frame, next TokenState id and frame, acoustic cost,
  arc id); an arc is emitting when it advances the frame clock, that is when its two
  frames differ.
\<close>

record LatLinkCompact =
  prev_tok_id :: int
  prev_tok_fr :: int
  next_tok_id :: int
  next_tok_fr :: int
  acoustic_cost :: BaseFloat
  arc_id :: int

definition IsEmitArc :: "LatLinkCompact \<Rightarrow> bool" where
  "IsEmitArc l = (prev_tok_fr l \<noteq> next_tok_fr l)"

definition GetPrevTokId :: "LatLinkCompact \<Rightarrow> int" where
  "GetPrevTokId l = prev_tok_id l"

text \<open>
  The exploded arc \<open>LatLink\<close> of cuda-lattice-decoder.h. \<open>p1\<close> and \<open>p2\<close> pack a frame and a
  token index as \<open>((uint64)frame << 32) + idx\<close>.
\<close>

record LatLink =
  p1 :: "64 word"
  ilabel :: int
  olabel :: int
  graph_cost :: BaseFloat
  link_acoustic_cost :: BaseFloat
  p2 :: "64 word"

definition ENCODE_TOK_IDX_PAIR :: "int \<Rightarrow> int \<Rightarrow> 64 word" where
  "ENCODE_TOK_IDX_PAIR fr idx = push_bit 32 (word_of_int fr) + word_of_int idx"

definition LatLink_ctor ::
  "int \<Rightarrow> int \<Rightarrow> int \<Rightarrow> int \<Rightarrow> int \<Rightarrow> int \<Rightarrow> BaseFloat \<Rightarrow> BaseFloat \<Rightarrow> LatLink" where
  "LatLink_ctor prev_id prev_fr next_id next_fr il ol gc ac =
     \<lparr> p1 = ENCODE_TOK_IDX_PAIR next_fr next_id, ilabel = il, olabel = ol,
       graph_cost = gc, link_acoustic_cost = ac,
       p2 = ENCODE_TOK_IDX_PAIR prev_fr prev_id \<rparr>"

section \<open>The lattice processor\<close>

text \<open>
  Device arrays are total functions from an \<open>int32\<close> offset to their element: the memory
  behind a pointer. Every bound the code checks is an \<open>assert\<close> of the model.
\<close>

record LatticeProcessor =
  toks_bpr_d :: "int \<Rightarrow> Token"
  toks_bpr_fr_sidx_d :: "int \<Rightarrow> int"
  arcs_bpr_d :: "int \<Rightarrow> LatLinkCompact"
  arcs_bpr_fr_sidx_d :: "int \<Rightarrow> int"
  arcs_bpr_used_d :: int
  arcs_apr_fr_size_d :: "int \<Rightarrow> int"
  arcs_apr_d :: "int \<Rightarrow> LatLink"
  arcs_apr_used_d :: int
  lp_modified_d :: "int \<Rightarrow> int"
  toks_num_used :: int
  toks_buf_before_pr_size :: int
  arcs_buf_before_pr_size :: int
  lp_arc_ilabels :: "int \<Rightarrow> int"
  lp_arc_olabels :: "int \<Rightarrow> int"
  lp_arc_weights :: "int \<Rightarrow> BaseFloat"

text \<open>
  Modelled from the spec: \<open>ESTIMATED_PRUNE_RATIO\<close> is defined in a header that is not part
  of the sources at hand; the spec gives 0.25 (as \<open>kEstimatedPruneRatio\<close> of
  cuda-lattice-decoder.h does).
\<close>

definition ESTIMATED_PRUNE_RATIO :: real where
  "ESTIMATED_PRUNE_RATIO = 0.25"

definition GetSize :: "LatticeProcessor \<Rightarrow> (int \<Rightarrow> int) \<Rightarrow> int \<Rightarrow> fault + int" where
  "GetSize lp acc_len fr =
     (let sz = acc_len (fr + 1) - acc_len fr
      in if sz \<ge> 0 \<and> sz \<le> arcs_buf_before_pr_size lp then Inr sz
         else Inl (AssertionFailed ''size >= 0 && size <= arcs_buf_before_pr_size''))"

text \<open>\<open>GetActiveToken(frame, id_pack, check)\<close>: the arena offset of the token.\<close>

definition GetActiveToken :: "LatticeProcessor \<Rightarrow> int \<Rightarrow> int \<Rightarrow> fault + int" where
  "GetActiveToken lp fr id_pack =
     (let cur_sidx = toks_bpr_fr_sidx_d lp fr;
          idx = id_pack AND (2 ^ 31 - 1)
      in if cur_sidx + idx < toks_buf_before_pr_size lp then Inr (cur_sidx + idx)
         else Inl (AssertionFailed ''cur_sidx + id < toks_buf_before_pr_size''))"

text \<open>\<open>GetActiveArc(frame, id)\<close>: the offset of the arc in \<open>arcs_bpr_d\<close>.\<close>

definition GetActiveArc :: "LatticeProcessor \<Rightarrow> int \<Rightarrow> int \<Rightarrow> fault + int" where
  "GetActiveArc lp fr idx =
     (let cur_sidx = arcs_bpr_fr_sidx_d lp fr
      in if cur_sidx + idx < arcs_buf_before_pr_size lp then Inr (cur_sidx + idx)
         else Inl (AssertionFailed ''cur_sidx + id < arcs_buf_before_pr_size''))"

text \<open>\<open>AddArc(LatLinkCompact*, frame)\<close>: append the exploded arc to the output arena.\<close>

definition AddArc :: "LatLinkCompact \<Rightarrow> int \<Rightarrow> LatticeProcessor \<Rightarrow> fault + LatticeProcessor" where
  "AddArc arc fr lp =
     (let i = arcs_apr_used_d lp;
          lp1 = lp\<lparr>arcs_apr_used_d := i + 1\<rparr>
      in if real_of_int i < real_of_int (arcs_buf_before_pr_size lp) * ESTIMATED_PRUNE_RATIO
         then
           (let frame_tok = (if IsEmitArc arc then fr - 1 else fr);
                j = arc_id arc;
                apr_arc = LatLink_ctor (GetPrevTokId arc) frame_tok (next_tok_id arc) fr
                            (lp_arc_ilabels lp j) (lp_arc_olabels lp j) (lp_arc_weights lp j)
                            (acoustic_cost arc)
            in Inr (lp1\<lparr>arcs_apr_d := (arcs_apr_d lp1)(i := apr_arc)\<rparr>))
         else Inl (AssertionFailed ''i < arcs_buf_before_pr_size * ESTIMATED_PRUNE_RATIO''))"

subsection \<open>PruneLatticeForFrame\<close>

text \<open>
  The kernel is modelled for one worker (\<open>gridDim.x * blockDim.x = 1\<close>), which visits the
  items of every loop in index order; \<open>grid_sync\<close> is then the identity and the verbose
  printing is left out.
\<close>

text \<open>The extra cost of a link between the tokens at arena offsets \<open>nidx\<close> and \<open>pidx\<close>.\<close>

definition link_extra_cost :: "LatticeProcessor \<Rightarrow> LatLinkCompact \<Rightarrow> int \<Rightarrow> int \<Rightarrow> BaseFloat" where
  "link_extra_cost lp link nidx pidx =
     fadd (extra_cost (toks_bpr_d lp nidx))
          (fsub (fadd (fadd (cost (toks_bpr_d lp pidx)) (acoustic_cost link))
                      (lp_arc_weights lp (arc_id link)))
                (cost (toks_bpr_d lp nidx)))"

text \<open>The guard \<open>!isnan(link_extra_cost) && link_extra_cost <= lattice_beam\<close>.\<close>

definition not_pruned :: "BaseFloat \<Rightarrow> BaseFloat \<Rightarrow> bool" where
  "not_pruned lec lbeam = (\<not> isnan lec \<and> fle lec lbeam)"

text \<open>The initialisation block: body for the token \<open>tid\<close> of frame \<open>fr - 1\<close>.\<close>

definition prune_init_tok :: "int \<Rightarrow> int \<Rightarrow> LatticeProcessor \<Rightarrow> fault + LatticeProcessor" where
  "prune_init_tok fr tid lp =
     thenF (GetActiveToken lp (fr - 1) tid) (\<lambda>i.
       Inr (lp\<lparr>toks_bpr_d := (toks_bpr_d lp)(i := (toks_bpr_d lp i)\<lparr>extra_cost := FLT_MAX\<rparr>)\<rparr>))"

definition prune_initialize :: "int \<Rightarrow> LatticeProcessor \<Rightarrow> fault + LatticeProcessor" where
  "prune_initialize fr lp =
     thenF (GetSize lp (toks_bpr_fr_sidx_d lp) (fr - 1)) (\<lambda>n.
     thenF (foldF (prune_init_tok fr) (tids n) lp) (\<lambda>lp1.
       Inr (lp1\<lparr>lp_modified_d := (lp_modified_d lp1)(0 := 1, 1 := 0, 2 := 0)\<rparr>)))"

text \<open>
  Both arc loops start alike: fetch the arc \<open>tid\<close> of frame \<open>fr\<close>, take the previous token
  from frame \<open>fr - 1\<close> when the arc is emitting and from \<open>fr\<close> otherwise, and locate the two
  tokens. The result is the arc with the arena offsets of its next and previous token.
\<close>

definition prune_arc_tokens ::
  "LatticeProcessor \<Rightarrow> int \<Rightarrow> int \<Rightarrow> fault + (LatLinkCompact \<times> int \<times> int)" where
  "prune_arc_tokens lp fr tid =
     thenF (GetActiveArc lp fr tid) (\<lambda>li.
       let link = arcs_bpr_d lp li;
           frame_tok = (if IsEmitArc link then fr - 1 else fr)
       in thenF (GetActiveToken lp fr (next_tok_id link)) (\<lambda>nidx.
          thenF (GetActiveToken lp frame_tok (GetPrevTokId link)) (\<lambda>pidx.
            Inr (link, nidx, pidx))))"

text \<open>
  The block under \<open>// not prune out\<close> of the update loop: a cost below -1 is replaced by
  \<open>lattice_beam / 2\<close>, then the cost is min-ed into the previous token and the flag
  \<open>modified0\<close> points to (at offset \<open>m0\<close>) is raised.
\<close>

definition prune_min_extra_cost ::
  "BaseFloat \<Rightarrow> int \<Rightarrow> int \<Rightarrow> BaseFloat \<Rightarrow> LatticeProcessor \<Rightarrow> LatticeProcessor" where
  "prune_min_extra_cost lbeam m0 pidx lec lp =
     (let lec1 = (if flt lec (Fin (- 1)) then fhalf lbeam else lec);
          tok = toks_bpr_d lp pidx
      in if flt lec1 (extra_cost tok) then
           lp\<lparr>toks_bpr_d := (toks_bpr_d lp)
                  (pidx := tok\<lparr>extra_cost := atomic_min (extra_cost tok) lec1\<rparr>),
              lp_modified_d := (if lp_modified_d lp m0 = 0
                  then (lp_modified_d lp)(m0 := lp_modified_d lp m0 + 1)
                  else lp_modified_d lp)\<rparr>
         else lp)"

text \<open>The body of the update loop for the arc \<open>tid\<close> of frame \<open>fr\<close>.\<close>

definition prune_arc_update ::
  "BaseFloat \<Rightarrow> int \<Rightarrow> int \<Rightarrow> int \<Rightarrow> LatticeProcessor \<Rightarrow> fault + LatticeProcessor" where
  "prune_arc_update lbeam fr m0 tid lp =
     thenF (prune_arc_tokens lp fr tid) (\<lambda>(link, nidx, pidx).
       let lec = link_extra_cost lp link nidx pidx
       in if not_pruned lec lbeam
          then Inr (prune_min_extra_cost lbeam m0 pidx lec lp)
          else Inr lp)"

text \<open>
  \<open>while (cnt++ < 10 && *modified0 != 0)\<close> with its body, entered with \<open>cnt\<close> and with
  \<open>modified0\<close> pointing to the flag at offset \<open>m0\<close>. \<open>UpdateModifiedFlags\<close> makes \<open>modified0\<close>
  and \<open>modified1\<close> point to the flags \<open>cnt % 3\<close> and \<open>(cnt + 1) % 3\<close>. Beside the final state,
  or the fault that ended the loop, the model returns how many times the body was entered.
\<close>

function prune_iterate ::
  "BaseFloat \<Rightarrow> int \<Rightarrow> nat \<Rightarrow> int \<Rightarrow> LatticeProcessor \<Rightarrow> (fault + LatticeProcessor) \<times> nat" where
  "prune_iterate lbeam fr cnt m0 lp =
     (if cnt < 10 \<and> lp_modified_d lp m0 \<noteq> 0 then
        (let cnt1 = cnt + 1;
             m0' = int cnt1 mod 3;
             m1' = (int cnt1 + 1) mod 3;
             lp1 = lp\<lparr>lp_modified_d := (lp_modified_d lp)(m1' := 0)\<rparr>
         in case thenF (GetSize lp1 (arcs_bpr_fr_sidx_d lp1) fr) (\<lambda>n.
                   foldF (prune_arc_update lbeam fr m0') (tids n) lp1) of
              Inl e \<Rightarrow> (Inl e, 1)
            | Inr lp2 \<Rightarrow>
                (case prune_iterate lbeam fr cnt1 m0' lp2 of
                   (r, runs) \<Rightarrow> (r, Suc runs)))
      else (Inr lp, 0))"
  by pat_completeness auto
termination
  by (relation "measure (\<lambda>(lbeam, fr, cnt, m0, lp). 10 - cnt)") auto

declare prune_iterate.simps [simp del]

text \<open>The body of the final aggregation loop for the arc \<open>tid\<close> of frame \<open>fr\<close>.\<close>

definition prune_arc_aggregate ::
  "BaseFloat \<Rightarrow> bool \<Rightarrow> int \<Rightarrow> int \<Rightarrow> LatticeProcessor \<Rightarrow> fault + LatticeProcessor" where
  "prune_arc_aggregate lbeam mrg fr tid lp =
     thenF (prune_arc_tokens lp fr tid) (\<lambda>(link, nidx, pidx).
       let lec = link_extra_cost lp link nidx pidx
       in if not_pruned lec lbeam
          then (if mrg then AddArc link fr lp else Inr lp)
          else Inr lp)"

definition PruneLatticeForFrame ::
  "int \<Rightarrow> bool \<Rightarrow> BaseFloat \<Rightarrow> LatticeProcessor \<Rightarrow> fault + LatticeProcessor" where
  "PruneLatticeForFrame fr mrg lbeam lp =
     (let prev_cidx = arcs_apr_used_d lp
      in thenF (prune_initialize fr lp) (\<lambda>lp1.
         thenF (fst (prune_iterate lbeam fr 0 0 lp1)) (\<lambda>lp2.
         thenF (GetSize lp2 (arcs_bpr_fr_sidx_d lp2) fr) (\<lambda>n.
         thenF (foldF (prune_arc_aggregate lbeam mrg fr) (tids n) lp2) (\<lambda>lp3.
           Inr (if mrg
                then lp3\<lparr>arcs_apr_fr_size_d :=
                           (arcs_apr_fr_size_d lp3)(fr := arcs_apr_used_d lp3 - prev_cidx)\<rparr>
                else lp3))))))"


section \<open>Vectors with an atomic push\<close>

text \<open>
  \<open>CudaVector<T>\<close>, as the device sees it: the counter \<open>count_d\<close> (a \<open>uint32\<close>, its
  wrap-around written out where the code adds to it or subtracts from it), the capacity
  \<open>max_size\<close> and the memory \<open>mem_d\<close>. \<open>CudaMergeVector<T>\<close> adds the array \<open>mem_update_d\<close>.
\<close>

record 'a CudaVector =
  count_d :: int
  max_size :: int
  mem_d :: "int \<Rightarrow> 'a"

record 'a CudaMergeVector = "'a CudaVector" +
  mem_update_d :: "int \<Rightarrow> int"

definition Size :: "('a, 'z) CudaVector_scheme \<Rightarrow> int" where
  "Size v = count_d v"

text \<open>\<open>operator[]\<close>: \<open>assert(idx < *count_d)\<close>, the index read as a \<open>uint32\<close>.\<close>

definition vec_at :: "('a, 'z) CudaVector_scheme \<Rightarrow> int \<Rightarrow> fault + 'a" where
  "vec_at v idx =
     (if 0 \<le> idx \<and> idx < count_d v then Inr (mem_d v idx)
      else Inl (AssertionFailed ''idx < *count_d''))"

text \<open>
  The device side of \<open>PushBack\<close>, run by one worker from its first statement to its last.
  \<open>dbg\<close> tells whether \<open>__DEBUG__\<close> is defined.
\<close>

definition PushBack ::
  "bool \<Rightarrow> 'a \<Rightarrow> ('a, 'z) CudaVector_scheme \<Rightarrow> fault + (int \<times> ('a, 'z) CudaVector_scheme)" where
  "PushBack dbg val v =
     (let idx = count_d v;
          c1 = (count_d v + 1) mod 2 ^ 32
      in if dbg then
           (if c1 < max_size v
            then Inr (idx, v\<lparr>count_d := c1, mem_d := (mem_d v)(idx := val)\<rparr>)
            else Inl (AssertionFailed ''*count_d < max_size''))
         else
           (let c2 = (if c1 \<ge> max_size v then (max_size v - 1) mod 2 ^ 32 else c1)
            in Inr (idx, v\<lparr>count_d := c2, mem_d := (mem_d v)(idx := val)\<rparr>)))"

definition GetIdxFromAddr :: "('a, 'z) CudaVector_scheme \<Rightarrow> int \<Rightarrow> fault + int" where
  "GetIdxFromAddr v ret =
     (if ret < count_d v \<and> ret \<ge> 0 then Inr ret
      else Inl (AssertionFailed ''ret < *count_d && ret >= 0''))"

definition IsUpdated :: "'a CudaMergeVector \<Rightarrow> int \<Rightarrow> int" where
  "IsUpdated v i = (if i \<ge> count_d v then 0 else mem_update_d v i)"

subsection \<open>PushBack, statement by statement\<close>

text \<open>
  Several workers push at once. The release build of \<open>PushBack\<close> is three steps for each of
  them: the atomic increment that hands out the index, the capacity check that clamps the
  counter, and the store. A schedule names the worker that takes the next step.
\<close>

datatype 'a push_thread =
    PushStart 'a
  | PushFetched 'a int
  | PushChecked 'a int
  | PushDone int

fun push_step ::
  "('a, 'z) CudaVector_scheme \<Rightarrow> 'a push_thread \<Rightarrow> ('a, 'z) CudaVector_scheme \<times> 'a push_thread" where
  "push_step v (PushStart val) =
     (v\<lparr>count_d := (count_d v + 1) mod 2 ^ 32\<rparr>, PushFetched val (count_d v))"
| "push_step v (PushFetched val idx) =
     (if count_d v \<ge> max_size v then v\<lparr>count_d := (max_size v - 1) mod 2 ^ 32\<rparr> else v,
      PushChecked val idx)"
| "push_step v (PushChecked val idx) = (v\<lparr>mem_d := (mem_d v)(idx := val)\<rparr>, PushDone idx)"
| "push_step v (PushDone idx) = (v, PushDone idx)"

fun run_pushes ::
  "nat list \<Rightarrow> ('a, 'z) CudaVector_scheme \<times> 'a push_thread list \<Rightarrow>
   ('a, 'z) CudaVector_scheme \<times> 'a push_thread list" where
  "run_pushes [] st = st"
| "run_pushes (t # sched) (v, ths) =
     (if t < length ths
      then (let (v', th') = push_step v (ths ! t) in run_pushes sched (v', ths[t := th']))
      else run_pushes sched (v, ths))"

text \<open>Pushes one after the other, each run to its end before the next starts.\<close>

fun push_all ::
  "bool \<Rightarrow> 'a list \<Rightarrow> ('a, 'z) CudaVector_scheme \<Rightarrow> fault + ('a, 'z) CudaVector_scheme" where
  "push_all dbg [] v = Inr v"
| "push_all dbg (x # xs) v =
     (case PushBack dbg x v of Inl e \<Rightarrow> Inl e | Inr (idx, v') \<Rightarrow> push_all dbg xs v')"

section \<open>Token passing\<close>

text \<open>
  Modelled from the spec: the \<open>TokenState\<close> the kernels use (a state, the allocator index of
  its token, the 64-bit recombination pack) is declared in a header that is not part of
  the sources at hand, as are the pack functions, the histogram and the two sentinel
  values of a lookup slot. The pack functions, the pack of a fresh TokenState and the
  histogram cutoff are parameters of the model; the sentinels are two values that no
  index takes.
\<close>

record TokenState =
  state :: int
  tok_idx_allocated :: int
  token_pack :: "64 word"

record utils =
  pack_cost_idx_into_uint64 :: "BaseFloat \<Rightarrow> int \<Rightarrow> 64 word"
  unpack_idx_from_uint64 :: "64 word \<Rightarrow> int"
  fresh_token_pack :: "64 word"
  histogram_cutoff :: "BaseFloat \<Rightarrow> BaseFloat list \<Rightarrow> int \<Rightarrow> BaseFloat"

definition LOOKUP_DEACTIVE :: int where
  "LOOKUP_DEACTIVE = - 1"

definition LOOKUP_READY_PUSH :: int where
  "LOOKUP_READY_PUSH = - 2"

definition TokenState_ctor :: "utils \<Rightarrow> int \<Rightarrow> TokenState" where
  "TokenState_ctor u s =
     \<lparr> state = s, tok_idx_allocated = LOOKUP_DEACTIVE, token_pack = fresh_token_pack u \<rparr>"

definition LatLinkCompact_ctor ::
  "int \<Rightarrow> int \<Rightarrow> int \<Rightarrow> int \<Rightarrow> BaseFloat \<Rightarrow> int \<Rightarrow> LatLinkCompact" where
  "LatLinkCompact_ctor prev_id prev_fr next_id next_fr ac j =
     \<lparr> prev_tok_id = prev_id, prev_tok_fr = prev_fr, next_tok_id = next_id,
       next_tok_fr = next_fr, acoustic_cost = ac, arc_id = j \<rparr>"

text \<open>
  \<open>processTokens_params\<close>: what a kernel is launched with. \<open>current_tokens_lookup\<close> holds the
  field \<open>tokenstate_idx\<close> of each slot, \<open>modified\<close> the two flags of the closure,
  \<open>histogram_prev_toks\<close> the baseline the histogram was last initialised with;
  \<open>p_frame\<close> is the field \<open>frame\<close> and \<open>token_per_arc_update_d\<close> the field
  \<open>token_per_arc_update\<close> (the decoder's array of that name).
\<close>

record processTokens_params =
  prev_toks :: "TokenState CudaMergeVector"
  cur_toks :: "TokenState CudaMergeVector"
  current_tokens_lookup :: "int \<Rightarrow> int"
  cutoff :: CostType
  cutoff_prev :: CostType
  lat_arcs_sub_vec :: "LatLinkCompact CudaVector"
  token_per_arc :: "int \<Rightarrow> Token"
  token_per_arc_update_d :: "int \<Rightarrow> int"
  lattice_processor :: LatticeProcessor
  histogram_prev_toks :: BaseFloat
  e_offsets :: "int \<Rightarrow> int"
  ne_offsets :: "int \<Rightarrow> int"
  arc_ilabels :: "int \<Rightarrow> int"
  arc_olabels :: "int \<Rightarrow> int"
  arc_weights :: "int \<Rightarrow> BaseFloat"
  arc_nextstates :: "int \<Rightarrow> int"
  loglikelihoods :: "int \<Rightarrow> BaseFloat"
  modified :: "int \<Rightarrow> int"
  pe_idx :: int
  ne_idx :: int
  ne_queue :: "int \<Rightarrow> int"
  fb_idx :: int
  agg_idx :: int
  beam :: BaseFloat
  lattice_beam :: BaseFloat
  prune_interval :: int
  numArcs :: int
  p_frame :: int
  num_arcs_till_last :: int
  max_lat_arc_per_frame :: int
  max_active :: int

subsection \<open>Token allocation\<close>

definition GetTokenByExactIdx :: "bool \<Rightarrow> LatticeProcessor \<Rightarrow> int \<Rightarrow> fault + int" where
  "GetTokenByExactIdx dbg lp offset =
     (let idx = offset
      in if dbg then
           (if idx \<ge> 0 \<and> idx < toks_buf_before_pr_size lp then Inr idx
            else Inl (AssertionFailed ''idx >= 0 && idx < toks_buf_before_pr_size''))
         else Inr (if idx \<ge> toks_buf_before_pr_size lp
                   then toks_buf_before_pr_size lp - 1 else idx))"

definition GetTokenAllocIdx :: "bool \<Rightarrow> LatticeProcessor \<Rightarrow> int \<Rightarrow> fault + int" where
  "GetTokenAllocIdx dbg lp offset =
     (let idx = toks_num_used lp + offset
      in if dbg then
           (if idx \<ge> 0 \<and> idx < toks_buf_before_pr_size lp then Inr idx
            else Inl (AssertionFailed ''idx >= 0 && idx < toks_buf_before_pr_size''))
         else Inr (if idx \<ge> toks_buf_before_pr_size lp
                   then toks_buf_before_pr_size lp - 1 else idx))"

subsection \<open>Finding or adding the token of a state\<close>

text \<open>
  The block of \<open>_find_or_add_token_arc\<close> that the winner of the compare-and-swap runs: push a
  TokenState for the state, record its index in the lookup slot, and give it its
  allocator index.
\<close>

definition activate_token ::
  "utils \<Rightarrow> bool \<Rightarrow> int \<Rightarrow> processTokens_params \<Rightarrow> fault + processTokens_params" where
  "activate_token u dbg nextstate p =
     thenF (PushBack dbg (TokenState_ctor u nextstate) (cur_toks p)) (\<lambda>(tokenstate_idx, v).
       let p1 = p\<lparr>cur_toks := v,
                  current_tokens_lookup := (current_tokens_lookup p)(nextstate := tokenstate_idx)\<rparr>
       in thenF (GetTokenAllocIdx dbg (lattice_processor p1) tokenstate_idx) (\<lambda>alloc.
          thenF (vec_at (cur_toks p1) tokenstate_idx) (\<lambda>ts.
            Inr (p1\<lparr>cur_toks := (cur_toks p1)\<lparr>mem_d := (mem_d (cur_toks p1))
                       (tokenstate_idx := ts\<lparr>tok_idx_allocated := alloc\<rparr>)\<rparr>\<rparr>))))"

text \<open>
  The arc block of \<open>_find_or_add_token_arc\<close> (\<open>if (add_arc)\<close>): \<open>ts_idx\<close> is the index of the
  source TokenState, in \<open>prev_toks\<close> for an emitting arc and in \<open>cur_toks\<close> otherwise. The
  result is the frame-local index of the new arc.
\<close>

definition add_lattice_arc ::
  "bool \<Rightarrow> int \<Rightarrow> BaseFloat \<Rightarrow> int \<Rightarrow> int \<Rightarrow> bool \<Rightarrow> processTokens_params \<Rightarrow>
   fault + (int \<times> processTokens_params)" where
  "add_lattice_arc dbg next_idx ac ts_idx j is_emit p =
     (let ts = mem_d (if is_emit then prev_toks p else cur_toks p) ts_idx
      in thenF (GetTokenByExactIdx dbg (lattice_processor p) (tok_idx_allocated ts)) (\<lambda>prev_tok.
         let prev_tok_frame = (if \<not> is_emit then p_frame p else p_frame p - 1)
         in thenF (GetIdxFromAddr (if \<not> is_emit then cur_toks p else prev_toks p) ts_idx) (\<lambda>ts_id.
            let arc = LatLinkCompact_ctor ts_id prev_tok_frame next_idx (p_frame p) ac j
            in thenF (PushBack dbg arc (lat_arcs_sub_vec p)) (\<lambda>(pos, av).
               let ret = pos - num_arcs_till_last p
               in if ret < max_lat_arc_per_frame p
                  then Inr (ret, p\<lparr>lat_arcs_sub_vec := av\<rparr>)
                  else Inl (AssertionFailed ''ret < params->max_lat_arc_per_frame'')))))"

text \<open>
  \<open>_find_or_add_token_arc\<close> for one worker: its compare-and-swap succeeds exactly when the
  slot is \<open>LOOKUP_DEACTIVE\<close>. The result is the index of the TokenState of \<open>nextstate\<close> in
  \<open>cur_toks\<close> (where \<open>next_ts\<close> and \<open>token_pack\<close> point) and \<open>update_idx\<close>, which keeps the value
  \<open>update_idx0\<close> it came with when no arc is added.
\<close>

definition find_or_add_token_arc ::
  "utils \<Rightarrow> bool \<Rightarrow> int \<Rightarrow> BaseFloat \<Rightarrow> int \<Rightarrow> int \<Rightarrow> bool \<Rightarrow> int \<Rightarrow> bool \<Rightarrow>
   processTokens_params \<Rightarrow> fault + (int \<times> int \<times> processTokens_params)" where
  "find_or_add_token_arc u dbg nextstate ac ts_idx j add_arc update_idx0 is_emit p =
     thenF (if current_tokens_lookup p nextstate = LOOKUP_DEACTIVE
            then activate_token u dbg nextstate p else Inr p) (\<lambda>p1.
       let idx = current_tokens_lookup p1 nextstate
       in if idx = LOOKUP_DEACTIVE \<or> idx = LOOKUP_READY_PUSH then Inl SpinsForever
          else thenF (vec_at (cur_toks p1) idx) (\<lambda>next_ts.
                 if add_arc
                 then thenF (add_lattice_arc dbg idx ac ts_idx j is_emit p1) (\<lambda>(ret, p2).
                        Inr (idx, ret, p2))
                 else Inr (idx, update_idx0, p1)))"

subsection \<open>The second pass of the recombination\<close>

text \<open>
  Modelled from the spec: \<open>fast_store8\<close> is defined in a header that is not part of the
  sources at hand; the spec has the second pass copy the temporary Token into the arena,
  and so does the model.
\<close>

text \<open>The body of the loop of \<open>StoreDataByPackIdx\<close> for the slot \<open>tid\<close> of \<open>cur_toks\<close>.\<close>

definition store_slot ::
  "utils \<Rightarrow> bool \<Rightarrow> int \<Rightarrow> int \<Rightarrow> processTokens_params \<Rightarrow> fault + processTokens_params" where
  "store_slot u dbg buf_size tid p =
     (let pack_v = token_pack (mem_d (cur_toks p) tid);
          idx = unpack_idx_from_uint64 u pack_v
      in if idx < buf_size then
           (let p1 = p\<lparr>cur_toks := (cur_toks p)\<lparr>mem_update_d :=
                         (mem_update_d (cur_toks p))(tid := token_per_arc_update_d p idx)\<rparr>\<rparr>
            in if token_per_arc_update_d p1 idx \<noteq> 0 then
                 (let p2 = p1\<lparr>token_per_arc_update_d := (token_per_arc_update_d p1)(idx := 0)\<rparr>;
                      to_ts = mem_d (cur_toks p2) tid;
                      cur_tok = token_per_arc p2 idx
                  in thenF (GetTokenByExactIdx dbg (lattice_processor p2) (tok_idx_allocated to_ts))
                       (\<lambda>to_tok.
                         Inr (p2\<lparr>lattice_processor := (lattice_processor p2)
                                   \<lparr>toks_bpr_d := (toks_bpr_d (lattice_processor p2))
                                      (to_tok := cur_tok)\<rparr>\<rparr>)))
               else Inr p1)
         else Inl (AssertionFailed ''idx < buf_size''))"

definition StoreDataByPackIdx ::
  "utils \<Rightarrow> bool \<Rightarrow> int \<Rightarrow> processTokens_params \<Rightarrow> fault + processTokens_params" where
  "StoreDataByPackIdx u dbg buf_size p =
     foldF (store_slot u dbg buf_size) (tids (count_d (cur_toks p))) p"





subsection \<open>The first pass of the recombination\<close>

text \<open>
  \<open>atomicMax\<close> on the pack of the TokenState at \<open>next_idx\<close>: the pack becomes the larger of
  the two, and the result is the pack that was there.
\<close>

definition atomicMax_pack ::
  "int \<Rightarrow> 64 word \<Rightarrow> processTokens_params \<Rightarrow> 64 word \<times> processTokens_params" where
  "atomicMax_pack next_idx new_token_pack p =
     (let ts = mem_d (cur_toks p) next_idx;
          ret = token_pack ts
      in (ret, p\<lparr>cur_toks := (cur_toks p)\<lparr>mem_d := (mem_d (cur_toks p))
                    (next_idx := ts\<lparr>token_pack := max ret new_token_pack\<rparr>)\<rparr>\<rparr>))"

subsection \<open>Phase C: the non-emitting closure\<close>

text \<open>
  The kernels are modelled for one worker, which handles the tokens in the order the
  dispatcher hands them out and the arcs of a token in index order; \<open>grid_sync\<close> is the
  identity. The two-argument \<open>Token(cost, prev)\<close> the kernels call is the constructor of
  the header with the current frame.
\<close>

text \<open>
  The body of the arc loop of \<open>_process_nonemitting_tokens\<close>: the arc \<open>j\<close> out of the token
  at index \<open>i\<close> of \<open>cur_toks\<close>, whose Token is at the arena offset \<open>tok_idx\<close>. \<open>m0\<close> is the
  offset of the flag \<open>modified\<close> points to.
\<close>

definition process_nonemit_arc ::
  "utils \<Rightarrow> bool \<Rightarrow> CostType \<Rightarrow> int \<Rightarrow> int \<Rightarrow> int \<Rightarrow> int \<Rightarrow> processTokens_params \<Rightarrow>
   fault + processTokens_params" where
  "process_nonemit_arc u dbg cutoff_v m0 i tok_idx j p =
     (let weight = arc_weights p j;
          nextstate = arc_nextstates p j;
          tok = toks_bpr_d (lattice_processor p) tok_idx;
          next_tok = Token_ctor weight (p_frame p) (Some tok);
          total_cost = fadd (cost tok) weight
      in if fle (cost next_tok) cutoff_v then
           thenF (find_or_add_token_arc u dbg nextstate (Fin 0) i j True 0 False p)
             (\<lambda>(next_idx, update_idx, p1).
               let new_token_pack = pack_cost_idx_into_uint64 u (fneg total_cost) update_idx;
                   (ret, p2) = atomicMax_pack next_idx new_token_pack p1
               in if ret < new_token_pack then
                    (if update_idx < max_lat_arc_per_frame p2 then
                       Inr (p2\<lparr>token_per_arc := (token_per_arc p2)
                                  (update_idx := Token_ctor weight (p_frame p2) (Some tok)),
                               token_per_arc_update_d := (token_per_arc_update_d p2)(update_idx := 1),
                               modified := (modified p2)(m0 := 1)\<rparr>)
                     else Inl (AssertionFailed ''update_idx < params->max_lat_arc_per_frame''))
                  else Inr p2)
         else Inr p)"

text \<open>The body of the token loop: all non-emitting arcs out of the token at index \<open>i\<close>.\<close>

definition process_nonemit_token ::
  "utils \<Rightarrow> bool \<Rightarrow> CostType \<Rightarrow> int \<Rightarrow> int \<Rightarrow> processTokens_params \<Rightarrow>
   fault + processTokens_params" where
  "process_nonemit_token u dbg cutoff_v m0 i p =
     thenF (vec_at (cur_toks p) i) (\<lambda>ts.
     thenF (GetTokenByExactIdx dbg (lattice_processor p) (tok_idx_allocated ts)) (\<lambda>tok_idx.
       let start = ne_offsets p (state ts);
           finish = ne_offsets p (state ts + 1)
       in foldF (process_nonemit_arc u dbg cutoff_v m0 i tok_idx) [start..finish - 1] p))"

text \<open>
  The aggregation stage: the indices of the updated tokens are queued; the loop is left
  when the queue position reaches \<open>size\<close>.
\<close>

fun aggregate_updated :: "int \<Rightarrow> int list \<Rightarrow> processTokens_params \<Rightarrow> processTokens_params" where
  "aggregate_updated n [] p = p"
| "aggregate_updated n (tid # rest) p =
     (if IsUpdated (cur_toks p) tid \<noteq> 0 then
        (let i = agg_idx p;
             p1 = p\<lparr>agg_idx := i + 1\<rparr>
         in if i \<ge> n then p1
            else aggregate_updated n rest (p1\<lparr>ne_queue := (ne_queue p1)(i := tid)\<rparr>))
      else aggregate_updated n rest p)"

text \<open>
  The dispatcher with aggregation, over the queue positions \<open>ne_idx .. agg_idx - 1\<close> it
  hands out before it runs dry: each fetch advances \<open>ne_idx\<close>, and a queued index of \<open>size\<close>
  or more ends the loop.
\<close>

fun dispatch_queue ::
  "utils \<Rightarrow> bool \<Rightarrow> CostType \<Rightarrow> int \<Rightarrow> int \<Rightarrow> int list \<Rightarrow> processTokens_params \<Rightarrow>
   fault + processTokens_params" where
  "dispatch_queue u dbg cutoff_v m0 n [] p = Inr (p\<lparr>ne_idx := ne_idx p + 1\<rparr>)"
| "dispatch_queue u dbg cutoff_v m0 n (j # js) p =
     (let p1 = p\<lparr>ne_idx := ne_idx p + 1\<rparr>;
          i = ne_queue p1 j
      in if i \<ge> n then Inr p1
         else (case process_nonemit_token u dbg cutoff_v m0 i p1 of
                 Inl e \<Rightarrow> Inl e
               | Inr q \<Rightarrow> dispatch_queue u dbg cutoff_v m0 n js q))"

definition process_nonemitting_tokens ::
  "utils \<Rightarrow> bool \<Rightarrow> CostType \<Rightarrow> int \<Rightarrow> int \<Rightarrow> bool \<Rightarrow> processTokens_params \<Rightarrow>
   fault + processTokens_params" where
  "process_nonemitting_tokens u dbg cutoff_v n m0 aggregate p =
     (if n = 0 then Inl (AssertionFailed ''size'')
      else
        thenF (if aggregate
               then (let p1 = aggregate_updated n (tids n) p
                     in dispatch_queue u dbg cutoff_v m0 n [ne_idx p1..agg_idx p1 - 1] p1)
               else thenF (foldF (process_nonemit_token u dbg cutoff_v m0) [ne_idx p..n - 1] p)
                      (\<lambda>p1. Inr (p1\<lparr>ne_idx := max (ne_idx p) n + 1\<rparr>)))
          (\<lambda>p2. StoreDataByPackIdx u dbg (numArcs p2) p2))"

text \<open>
  The \<open>do ... while ((*modified0) == true && cnt < 10)\<close> of \<open>_process_tokens\<close>, entered with
  \<open>cnt\<close> and with \<open>modified0\<close> pointing to the flag at offset \<open>m0\<close> (\<open>modified1\<close> to the other
  one). Beside the final state, or the fault that ended the loop, the model returns how
  many times the body was entered.
\<close>

function closure_loop ::
  "utils \<Rightarrow> bool \<Rightarrow> bool \<Rightarrow> CostType \<Rightarrow> nat \<Rightarrow> int \<Rightarrow> processTokens_params \<Rightarrow>
   (fault + processTokens_params) \<times> nat" where
  "closure_loop u dbg is_init cutoff_v cnt m0 p =
     (let n = Size (cur_toks p);
          p1 = p\<lparr>ne_idx := 0, agg_idx := 0\<rparr>;
          m0' = 1 - m0;
          m1' = m0;
          p2 = p1\<lparr>modified := (modified p1)(m1' := 0)\<rparr>;
          cnt1 = cnt + 1;
          aggregate = (\<not> is_init \<and> cnt1 > 1)
      in case process_nonemitting_tokens u dbg cutoff_v n m0' aggregate p2 of
           Inl e \<Rightarrow> (Inl e, 1)
         | Inr p3 \<Rightarrow>
             if modified p3 m0' = 1 \<and> cnt1 < 10
             then (case closure_loop u dbg is_init cutoff_v cnt1 m0' p3 of
                     (r, runs) \<Rightarrow> (r, Suc runs))
             else (Inr p3, 1))"
  by pat_completeness auto
termination
  by (relation "measure (\<lambda>(u, dbg, is_init, cutoff_v, cnt, m0, p). 10 - cnt)") auto

declare closure_loop.simps [simp del]

subsection \<open>Phase A: the beam cutoff\<close>

definition blockDimx :: int where
  "blockDimx = 32"

text \<open>
  The histogram pruning test of the token loops: \<open>size > params->max_active &&
  tok->cost_ > *params->cutoff_prev\<close>.
\<close>

definition hist_skip :: "processTokens_params \<Rightarrow> int \<Rightarrow> Token \<Rightarrow> bool" where
  "hist_skip p n tok = (n > max_active p \<and> fgt (cost tok) (cutoff_prev p))"

text \<open>
  \<open>_find_prev_cutoff_by_histogram\<close>: the costs of the tokens of \<open>prev_toks\<close> go to the
  histogram, whose cutoff for \<open>max_active\<close> becomes \<open>cutoff_prev\<close>.
\<close>

definition find_prev_cutoff_by_histogram ::
  "utils \<Rightarrow> bool \<Rightarrow> processTokens_params \<Rightarrow> fault + processTokens_params" where
  "find_prev_cutoff_by_histogram u dbg p =
     thenF (foldF (\<lambda>i costs.
               thenF (vec_at (prev_toks p) i) (\<lambda>ts.
               thenF (GetTokenByExactIdx dbg (lattice_processor p) (tok_idx_allocated ts)) (\<lambda>ti.
                 Inr (costs @ [cost (toks_bpr_d (lattice_processor p) ti)]))))
             (tids (Size (prev_toks p))) [])
       (\<lambda>costs. Inr (p\<lparr>cutoff_prev :=
                          histogram_cutoff u (histogram_prev_toks p) costs (max_active p)\<rparr>))"

text \<open>
  The arc loop of \<open>_find_best_cutoff\<close>: the arc \<open>j\<close> belongs to the lane \<open>(j - start) % 32\<close> of
  the group, and each lane keeps its own \<open>local_cutoff\<close>.
\<close>

definition cutoff_arc ::
  "processTokens_params \<Rightarrow> Token \<Rightarrow> int \<Rightarrow> int \<Rightarrow> (int \<Rightarrow> CostType) \<Rightarrow> (int \<Rightarrow> CostType)" where
  "cutoff_arc p tok start j local_cutoff =
     (let lane = (j - start) mod blockDimx;
          il = arc_ilabels p j;
          ac = fneg (loglikelihoods p il);
          weight = arc_weights p j;
          total_cost = fadd (fadd (fadd (cost tok) weight) ac) (beam p)
      in if flt total_cost (local_cutoff lane)
         then local_cutoff(lane := total_cost) else local_cutoff)"

definition cutoff_token ::
  "bool \<Rightarrow> processTokens_params \<Rightarrow> int \<Rightarrow> int \<Rightarrow> (int \<Rightarrow> CostType) \<Rightarrow> fault + (int \<Rightarrow> CostType)" where
  "cutoff_token dbg p n i local_cutoff =
     thenF (vec_at (prev_toks p) i) (\<lambda>ts.
     thenF (GetTokenByExactIdx dbg (lattice_processor p) (tok_idx_allocated ts)) (\<lambda>ti.
       let tok = toks_bpr_d (lattice_processor p) ti
       in if hist_skip p n tok then Inr local_cutoff
          else (let start = e_offsets p (state ts);
                    finish = e_offsets p (state ts + 1)
                in Inr (fold (cutoff_arc p tok start) [start..finish - 1] local_cutoff))))"

definition find_best_cutoff ::
  "utils \<Rightarrow> bool \<Rightarrow> processTokens_params \<Rightarrow> fault + processTokens_params" where
  "find_best_cutoff u dbg p =
     (let n = Size (prev_toks p)
      in thenF (if n > max_active p \<and> p_frame p > 1
                then find_prev_cutoff_by_histogram u dbg p else Inr p) (\<lambda>p1.
         thenF (foldF (cutoff_token dbg p1 n) [fb_idx p1..n - 1] (\<lambda>lane. INFINITY)) (\<lambda>local_cutoff.
           Inr (p1\<lparr>fb_idx := max (fb_idx p1) n + 1,
                   cutoff := fold (\<lambda>lane c. if fne (local_cutoff lane) INFINITY
                                            then atomic_min c (local_cutoff lane) else c)
                               [0..blockDimx - 1] (cutoff p1)\<rparr>))))"

subsection \<open>Phase B: the emitting arcs\<close>

definition process_emit_arc ::
  "utils \<Rightarrow> bool \<Rightarrow> CostType \<Rightarrow> int \<Rightarrow> int \<Rightarrow> int \<Rightarrow> processTokens_params \<Rightarrow>
   fault + processTokens_params" where
  "process_emit_arc u dbg cutoff_v i tok_idx j p =
     (let il = arc_ilabels p j;
          ac = fneg (loglikelihoods p il);
          weight = arc_weights p j;
          nextstate = arc_nextstates p j;
          tok = toks_bpr_d (lattice_processor p) tok_idx;
          total_cost = fadd (fadd (cost tok) weight) ac
      in if fle total_cost cutoff_v then
           thenF (find_or_add_token_arc u dbg nextstate ac i j True 0 True p)
             (\<lambda>(next_idx, update_idx, p1).
               let new_token_pack = pack_cost_idx_into_uint64 u (fneg total_cost) update_idx;
                   (ret, p2) = atomicMax_pack next_idx new_token_pack p1
               in if ret < new_token_pack then
                    Inr (p2\<lparr>token_per_arc := (token_per_arc p2)
                               (update_idx := Token_ctor (fadd ac weight) (p_frame p2) (Some tok)),
                            token_per_arc_update_d := (token_per_arc_update_d p2)(update_idx := 1)\<rparr>)
                  else Inr p2)
         else Inr p)"

definition process_emit_token ::
  "utils \<Rightarrow> bool \<Rightarrow> CostType \<Rightarrow> int \<Rightarrow> int \<Rightarrow> processTokens_params \<Rightarrow>
   fault + processTokens_params" where
  "process_emit_token u dbg cutoff_v n i p =
     thenF (vec_at (prev_toks p) i) (\<lambda>ts.
     thenF (GetTokenByExactIdx dbg (lattice_processor p) (tok_idx_allocated ts)) (\<lambda>tok_idx.
       if hist_skip p n (toks_bpr_d (lattice_processor p) tok_idx) then Inr p
       else (let start = e_offsets p (state ts);
                 finish = e_offsets p (state ts + 1)
             in foldF (process_emit_arc u dbg cutoff_v i tok_idx) [start..finish - 1] p)))"

definition process_emitting_tokens ::
  "utils \<Rightarrow> bool \<Rightarrow> processTokens_params \<Rightarrow> fault + processTokens_params" where
  "process_emitting_tokens u dbg p =
     (let cutoff_v = cutoff p;
          n = Size (prev_toks p)
      in thenF (foldF (process_emit_token u dbg cutoff_v n) [pe_idx p..n - 1] p) (\<lambda>p1.
           StoreDataByPackIdx u dbg (numArcs p1) (p1\<lparr>pe_idx := max (pe_idx p) n + 1\<rparr>)))"

subsection \<open>The kernels\<close>

definition initialize_cutoff :: "processTokens_params \<Rightarrow> processTokens_params" where
  "initialize_cutoff p = p\<lparr>cutoff := Fin 100\<rparr>"

definition add_initial_token ::
  "utils \<Rightarrow> bool \<Rightarrow> int \<Rightarrow> processTokens_params \<Rightarrow> fault + processTokens_params" where
  "add_initial_token u dbg st p =
     (let j = 0;
          p1 = initialize_cutoff p
      in thenF (find_or_add_token_arc u dbg st (Fin 0) 0 j False 0 False p1)
           (\<lambda>(next_idx, update_idx, p2).
             let new_token_pack = pack_cost_idx_into_uint64 u (Fin 0) update_idx;
                 p3 = p2\<lparr>token_per_arc_update_d := (token_per_arc_update_d p2)(update_idx := 1)\<rparr>;
                 p4 = p3\<lparr>token_per_arc := (token_per_arc p3)
                            (update_idx := Token_ctor (Fin 0) (p_frame p3) None)\<rparr>;
                 (ret, p5) = atomicMax_pack next_idx new_token_pack p4
             in StoreDataByPackIdx u dbg (numArcs p5) p5))"

definition SetNextSidx :: "(int \<Rightarrow> int) \<Rightarrow> int \<Rightarrow> int \<Rightarrow> fault + (int \<Rightarrow> int)" where
  "SetNextSidx sidx_buf n fr =
     (if fr \<ge> 0 then Inr (sidx_buf(fr + 1 := sidx_buf fr + n))
      else Inl (AssertionFailed ''frame >= 0''))"

definition CollectToksPerFrame ::
  "TokenState CudaMergeVector \<Rightarrow> int \<Rightarrow> LatticeProcessor \<Rightarrow> fault + LatticeProcessor" where
  "CollectToksPerFrame cur_toks_vec fr lp =
     (let n = Size cur_toks_vec
      in thenF (SetNextSidx (toks_bpr_fr_sidx_d lp) n fr) (\<lambda>sidx.
           let lp1 = lp\<lparr>toks_bpr_fr_sidx_d := sidx, toks_num_used := toks_num_used lp + n\<rparr>
           in if toks_bpr_fr_sidx_d lp1 0 < toks_buf_before_pr_size lp1 then Inr lp1
              else Inl (AssertionFailed ''*toks_bpr_fr_sidx_d < toks_buf_before_pr_size'')))"

definition CollectArcsPerFrame ::
  "LatLinkCompact CudaVector \<Rightarrow> int \<Rightarrow> LatticeProcessor \<Rightarrow> fault + LatticeProcessor" where
  "CollectArcsPerFrame cur_arc_array fr lp =
     (let n = Size cur_arc_array - arcs_bpr_used_d lp
      in thenF (SetNextSidx (arcs_bpr_fr_sidx_d lp) n fr) (\<lambda>sidx.
           Inr (lp\<lparr>arcs_bpr_fr_sidx_d := sidx, arcs_bpr_used_d := Size cur_arc_array\<rparr>)))"

definition initialize_visited_states :: "processTokens_params \<Rightarrow> processTokens_params" where
  "initialize_visited_states p =
     p\<lparr>current_tokens_lookup :=
         fold (\<lambda>i lookup. lookup(state (mem_d (cur_toks p) i) := LOOKUP_DEACTIVE))
           (tids (Size (cur_toks p))) (current_tokens_lookup p)\<rparr>"

text \<open>
  \<open>_process_tokens\<close>. The arc vector shares its memory with the lattice processor
  (\<open>lat_arcs_buf_\<close> is allocated on \<open>arcs_bpr_d\<close>), which the model writes through when the
  arcs of the frame are collected.
\<close>

definition process_tokens ::
  "utils \<Rightarrow> bool \<Rightarrow> bool \<Rightarrow> processTokens_params \<Rightarrow> fault + processTokens_params" where
  "process_tokens u dbg is_init p =
     thenF (if \<not> is_init
            then thenF (find_best_cutoff u dbg p) (\<lambda>p1.
                   Inr (p1\<lparr>histogram_prev_toks := fsub (cutoff p1) (beam p1)\<rparr>))
            else Inr (p\<lparr>num_arcs_till_last := 0\<rparr>)) (\<lambda>p1.
       let cutoff_v = cutoff p1;
           p2 = p1\<lparr>modified := (modified p1)(0 := 0, 1 := 0)\<rparr>
       in thenF (if \<not> is_init then process_emitting_tokens u dbg p2 else Inr p2) (\<lambda>p3.
          thenF (fst (closure_loop u dbg is_init cutoff_v 0 0 p3)) (\<lambda>p4.
          thenF (CollectToksPerFrame (cur_toks p4) (p_frame p4) (lattice_processor p4)) (\<lambda>lp1.
          thenF (CollectArcsPerFrame (lat_arcs_sub_vec p4) (p_frame p4)
                   (lp1\<lparr>arcs_bpr_d := mem_d (lat_arcs_sub_vec p4)\<rparr>)) (\<lambda>lp2.
            let p5 = p4\<lparr>lattice_processor := lp2,
                        num_arcs_till_last := Size (lat_arcs_sub_vec p4)\<rparr>;
                p6 = initialize_visited_states p5
            in Inr (p6\<lparr>cutoff := INFINITY, fb_idx := 0, pe_idx := 0\<rparr>))))))"

subsection \<open>The driver's step between two frames\<close>


subsection \<open>The token states of a frame\<close>

text \<open>
  \<open>uniq_states\<close>: no two TokenStates of \<open>cur_toks\<close> have the same state. \<open>toks_inv\<close> adds what
  keeps it so: the capacity is a positive \<open>uint32\<close>, and the lookup slot of every state
  that has a TokenState is active.
\<close>

definition uniq_states :: "processTokens_params \<Rightarrow> bool" where
  "uniq_states p =
     (\<forall>i j. 0 \<le> i \<and> i < count_d (cur_toks p) \<and> 0 \<le> j \<and> j < count_d (cur_toks p) \<and>
            state (mem_d (cur_toks p) i) = state (mem_d (cur_toks p) j) \<longrightarrow> i = j)"

definition toks_inv :: "processTokens_params \<Rightarrow> bool" where
  "toks_inv p =
     (0 < max_size (cur_toks p) \<and> max_size (cur_toks p) < 2 ^ 32 \<and> uniq_states p \<and>
      (\<forall>i. 0 \<le> i \<and> i < count_d (cur_toks p) \<longrightarrow>
           current_tokens_lookup p (state (mem_d (cur_toks p) i)) \<noteq> LOOKUP_DEACTIVE))"

text \<open>
  \<open>temp_tokens_below c A\<close>: every temporary token whose flag is set costs at most \<open>c\<close>, and
  so does every Token of the arena that is not the one of the arena \<open>A\<close>. \<open>frame_inv\<close> is
  the invariant of the expansion of a frame; the cost bound is part of it when \<open>G\<close> holds.
\<close>

definition temp_tokens_below :: "CostType \<Rightarrow> (int \<Rightarrow> Token) \<Rightarrow> processTokens_params \<Rightarrow> bool" where
  "temp_tokens_below c A p =
     ((\<forall>k. token_per_arc_update_d p k \<noteq> 0 \<longrightarrow> fle (cost (token_per_arc p k)) c) \<and>
      (\<forall>a. toks_bpr_d (lattice_processor p) a = A a \<or>
           fle (cost (toks_bpr_d (lattice_processor p) a)) c))"

definition frame_inv :: "bool \<Rightarrow> CostType \<Rightarrow> (int \<Rightarrow> Token) \<Rightarrow> processTokens_params \<Rightarrow> bool" where
  "frame_inv G c A p = (toks_inv p \<and> (G \<longrightarrow> temp_tokens_below c A p))"

section \<open>A small lattice\<close>

text \<open>
  Three frames: one token in frame 0 (cost 0), two in frame 1 (costs 1 and 3), one in
  frame 2 (cost 2). Frame 1 has two emitting arcs out of the start token; frame 2 has two
  emitting arcs into its only token, of total costs 2 and 3.5.
\<close>

definition example_toks :: "int \<Rightarrow> Token" where
  "example_toks =
     (\<lambda>_. Token_ctor (Fin 0) 0 None)
       (1 := Token_ctor (Fin 1) 1 None,
        2 := Token_ctor (Fin 3) 1 None,
        3 := Token_ctor (Fin 2) 2 None)"

definition example_arcs :: "int \<Rightarrow> LatLinkCompact" where
  "example_arcs =
     (\<lambda>_. \<lparr>prev_tok_id = 0, prev_tok_fr = 0, next_tok_id = 0, next_tok_fr = 1,
            acoustic_cost = Fin (1/2), arc_id = 0\<rparr>)
       (1 := \<lparr>prev_tok_id = 0, prev_tok_fr = 0, next_tok_id = 1, next_tok_fr = 1,
              acoustic_cost = Fin 1, arc_id = 1\<rparr>,
        2 := \<lparr>prev_tok_id = 0, prev_tok_fr = 1, next_tok_id = 0, next_tok_fr = 2,
              acoustic_cost = Fin (1/2), arc_id = 2\<rparr>,
        3 := \<lparr>prev_tok_id = 1, prev_tok_fr = 1, next_tok_id = 0, next_tok_fr = 2,
              acoustic_cost = Fin (1/4), arc_id = 3\<rparr>)"

definition example_lp :: LatticeProcessor where
  "example_lp =
     \<lparr> toks_bpr_d = example_toks,
       toks_bpr_fr_sidx_d = (\<lambda>_. 0)(1 := 1, 2 := 3, 3 := 4),
       arcs_bpr_d = example_arcs,
       arcs_bpr_fr_sidx_d = (\<lambda>_. 0)(2 := 2, 3 := 4),
       arcs_bpr_used_d = 4,
       arcs_apr_fr_size_d = (\<lambda>_. 0),
       arcs_apr_d = (\<lambda>_. LatLink_ctor 0 0 0 0 0 0 (Fin 0) (Fin 0)),
       arcs_apr_used_d = 0,
       lp_modified_d = (\<lambda>_. 0),
       toks_num_used = 4,
       toks_buf_before_pr_size = 16,
       arcs_buf_before_pr_size = 16,
       lp_arc_ilabels = (\<lambda>_. 1),
       lp_arc_olabels = (\<lambda>_. 0),
       lp_arc_weights = (\<lambda>_. Fin (1/2))(1 := Fin 2, 3 := Fin (1/4)) \<rparr>"


text \<open>
  The same lattice with the cost of the last token raised to 5: both arcs of frame 2 now
  cost less than the token they lead to, and their extra costs are negative.
\<close>

definition example_neg_lp :: LatticeProcessor where
  "example_neg_lp =
     example_lp\<lparr>toks_bpr_d := (toks_bpr_d example_lp)(3 := Token_ctor (Fin 5) 2 None)\<rparr>"

section \<open>A small decoder\<close>

text \<open>
  A graph of three states: the emitting arcs 0 (from state 0 to state 2, weight 0.3) and 1
  (from state 1 to state 2, weight 0.1), both with input label 1, and the non-emitting arc
  2 (from state 0 to state 1, weight 0); the other 61 arcs of the graph leave states that
  cannot be reached. The pack of the example orders by cost in
  thousandths and keeps the index in its low 32 bits, as the spec describes the pack.
\<close>

definition example_utils :: utils where
  "example_utils =
     \<lparr> pack_cost_idx_into_uint64 =
         (\<lambda>c i. push_bit 32 (case c of Fin r \<Rightarrow> word_of_int (\<lfloor>r * 1000\<rfloor> + 2 ^ 31)
                                | PInf \<Rightarrow> 2 ^ 32 - 1 | _ \<Rightarrow> 0) + word_of_int i),
       unpack_idx_from_uint64 = (\<lambda>w. uint (w AND 4294967295)),
       fresh_token_pack = 0,
       histogram_cutoff = (\<lambda>baseline costs k. baseline) \<rparr>"

definition example_params :: processTokens_params where
  "example_params =
     \<lparr> prev_toks = \<lparr> count_d = 0, max_size = 8,
                     mem_d = (\<lambda>_. TokenState_ctor example_utils 0), mem_update_d = (\<lambda>_. 0) \<rparr>,
       cur_toks = \<lparr> count_d = 0, max_size = 8,
                    mem_d = (\<lambda>_. TokenState_ctor example_utils 0), mem_update_d = (\<lambda>_. 0) \<rparr>,
       current_tokens_lookup = (\<lambda>_. LOOKUP_DEACTIVE),
       cutoff = INFINITY,
       cutoff_prev = Fin 0,
       lat_arcs_sub_vec = \<lparr> count_d = 0, max_size = 64,
                            mem_d = (\<lambda>_. LatLinkCompact_ctor 0 0 0 0 (Fin 0) 0) \<rparr>,
       token_per_arc = (\<lambda>_. Token_ctor (Fin 0) 0 None),
       token_per_arc_update_d = (\<lambda>_. 0),
       lattice_processor =
         example_lp\<lparr>toks_bpr_fr_sidx_d := (\<lambda>_. 0), arcs_bpr_fr_sidx_d := (\<lambda>_. 0),
                    arcs_bpr_used_d := 0, toks_num_used := 0\<rparr>,
       histogram_prev_toks = Fin 0,
       e_offsets = (\<lambda>_. 2)(0 := 0, 1 := 1),
       ne_offsets = (\<lambda>_. 3)(0 := 2),
       arc_ilabels = (\<lambda>_. 0)(0 := 1, 1 := 1),
       arc_olabels = (\<lambda>_. 0),
       arc_weights = (\<lambda>_. Fin 0)(0 := Fin (3 / 10), 1 := Fin (1 / 10)),
       arc_nextstates = (\<lambda>_. 1)(0 := 2, 1 := 2),
       loglikelihoods = (\<lambda>_. Fin 0),
       modified = (\<lambda>_. 0),
       pe_idx = 0, ne_idx = 0, ne_queue = (\<lambda>_. 0), fb_idx = 0, agg_idx = 0,
       beam = Fin 2, lattice_beam = Fin 1, prune_interval = 3000, numArcs = 64,
       p_frame = 0, num_arcs_till_last = 0, max_lat_arc_per_frame = 16, max_active = 1000 \<rparr>"


definition empty_vec :: "int \<Rightarrow> 'a \<Rightarrow> 'a CudaVector" where
  "empty_vec n x = \<lparr> count_d = 0, max_size = n, mem_d = (\<lambda>_. x) \<rparr>"


text \<open>
  The same graph with a non-emitting arc of weight 200 and a beam of 1000, and the
  initial frame on it: \<open>_add_initial_token\<close> for the start state 0, then \<open>_process_tokens\<close>
  with \<open>is_init\<close>.
\<close>

definition example_far :: processTokens_params where
  "example_far =
     example_params\<lparr>arc_weights := (arc_weights example_params)(2 := Fin 200),
                    beam := Fin 1000\<rparr>"

definition example_far0 :: "fault + processTokens_params" where
  "example_far0 =
     thenF (add_initial_token example_utils False 0 example_far)
       (process_tokens example_utils False True)"

text \<open>
  The start of frame 1 with two tokens in \<open>prev_toks\<close>, of the states 0 and 1 and the costs
  0 and 0.1, \<open>max_active = 1\<close>, and 0.05 in \<open>cutoff_prev\<close>: the device word is allocated in
  the constructor and written by the histogram pass only, so at frame 1 it holds what an
  earlier utterance left there.
\<close>

definition example_frame1 :: processTokens_params where
  "example_frame1 =
     example_params
       \<lparr>p_frame := 1,
        prev_toks := (prev_toks example_params)
          \<lparr>count_d := 2,
           mem_d := (mem_d (prev_toks example_params))
             (0 := \<lparr>state = 0, tok_idx_allocated = 0, token_pack = 0\<rparr>,
              1 := \<lparr>state = 1, tok_idx_allocated = 1, token_pack = 0\<rparr>)\<rparr>,
        lattice_processor := (lattice_processor example_params)
          \<lparr>toks_bpr_d := (\<lambda>_. Token_ctor (Fin 0) 0 None)(1 := Token_ctor (Fin (1 / 10)) 0 None),
           toks_bpr_fr_sidx_d := (\<lambda>_. 0)(1 := 2), toks_num_used := 2\<rparr>,
        max_active := 1,
        cutoff_prev := Fin (1 / 20)\<rparr>"

section \<open>Properties\<close>

subsection \<open>Faults and folds\<close>

lemma thenF_Inr_iff: "thenF m f = Inr y \<longleftrightarrow> (\<exists>x. m = Inr x \<and> f x = Inr y)"
  by (cases m) (simp_all add: thenF_def)

subsection \<open>The extra cost of a token\<close>

lemma prune_init_tok_Inr:
  "prune_init_tok fr tid lp = Inr lp' \<Longrightarrow>
     \<exists>i. GetActiveToken lp (fr - 1) tid = Inr i \<and>
         lp' = lp\<lparr>toks_bpr_d := (toks_bpr_d lp)(i := (toks_bpr_d lp i)\<lparr>extra_cost := FLT_MAX\<rparr>)\<rparr>"
  by (auto simp: prune_init_tok_def thenF_Inr_iff)

lemma GetActiveToken_cong:
  "toks_bpr_fr_sidx_d lp' = toks_bpr_fr_sidx_d lp \<Longrightarrow>
   toks_buf_before_pr_size lp' = toks_buf_before_pr_size lp \<Longrightarrow>
   GetActiveToken lp' fr t = GetActiveToken lp fr t"
  by (simp add: GetActiveToken_def)

lemma prune_init_fold:
  "foldF (prune_init_tok fr) xs lp = Inr lp' \<Longrightarrow>
     toks_bpr_fr_sidx_d lp' = toks_bpr_fr_sidx_d lp \<and>
     toks_buf_before_pr_size lp' = toks_buf_before_pr_size lp \<and>
     (\<forall>i. extra_cost (toks_bpr_d lp i) = FLT_MAX \<longrightarrow> extra_cost (toks_bpr_d lp' i) = FLT_MAX) \<and>
     (\<forall>t\<in>set xs. \<forall>i. GetActiveToken lp (fr - 1) t = Inr i \<longrightarrow>
         extra_cost (toks_bpr_d lp' i) = FLT_MAX)"
proof (induction xs arbitrary: lp)
  case Nil
  then show ?case by simp
next
  case (Cons x xs)
  from Cons.prems obtain lp1 where s1: "prune_init_tok fr x lp = Inr lp1"
    and s2: "foldF (prune_init_tok fr) xs lp1 = Inr lp'"
    by (auto split: sum.splits)
  from prune_init_tok_Inr [OF s1] obtain j where j: "GetActiveToken lp (fr - 1) x = Inr j"
    and lp1: "lp1 = lp\<lparr>toks_bpr_d := (toks_bpr_d lp)(j := (toks_bpr_d lp j)\<lparr>extra_cost := FLT_MAX\<rparr>)\<rparr>"
    by blast
  have same: "\<And>t. GetActiveToken lp1 (fr - 1) t = GetActiveToken lp (fr - 1) t"
    by (rule GetActiveToken_cong) (simp_all add: lp1)
  have keep: "\<And>i. extra_cost (toks_bpr_d lp i) = FLT_MAX \<Longrightarrow> extra_cost (toks_bpr_d lp1 i) = FLT_MAX"
    by (simp add: lp1)
  have atj: "extra_cost (toks_bpr_d lp1 j) = FLT_MAX"
    by (simp add: lp1)
  note ih = Cons.IH [OF s2]
  show ?case
    using ih same keep atj j by (auto simp: lp1)
qed

lemma atomic_min_cases: "atomic_min old v = old \<or> flt (atomic_min old v) old"
  by (simp add: atomic_min_def)


lemma prune_min_extra_cost_mono:
  "extra_cost (toks_bpr_d (prune_min_extra_cost lbeam m0 pidx lec lp) i) = extra_cost (toks_bpr_d lp i) \<or>
   flt (extra_cost (toks_bpr_d (prune_min_extra_cost lbeam m0 pidx lec lp) i)) (extra_cost (toks_bpr_d lp i))"
  using atomic_min_cases [of "extra_cost (toks_bpr_d lp pidx)"]
  by (simp add: prune_min_extra_cost_def Let_def)

lemma prune_arc_update_cases:
  "prune_arc_update lbeam fr m0 tid lp = Inr lp' \<Longrightarrow>
     lp' = lp \<or> (\<exists>pidx lec. lp' = prune_min_extra_cost lbeam m0 pidx lec lp)"
  by (auto simp: prune_arc_update_def thenF_Inr_iff Let_def split: if_splits)


lemma prune_arc_update_extra_cost:
  "prune_arc_update lbeam fr m0 tid lp = Inr lp' \<Longrightarrow>
     extra_cost (toks_bpr_d lp' i) = extra_cost (toks_bpr_d lp i) \<or>
     flt (extra_cost (toks_bpr_d lp' i)) (extra_cost (toks_bpr_d lp i))"
proof -
  assume "prune_arc_update lbeam fr m0 tid lp = Inr lp'"
  from prune_arc_update_cases [OF this] show ?thesis
  proof
    assume "lp' = lp"
    then show ?thesis by simp
  next
    assume "\<exists>pidx lec. lp' = prune_min_extra_cost lbeam m0 pidx lec lp"
    then obtain pidx lec where "lp' = prune_min_extra_cost lbeam m0 pidx lec lp"
      by blast
    then show ?thesis
      using prune_min_extra_cost_mono [of lbeam m0 pidx lec lp i] by simp
  qed
qed

lemma prune_initialize_FLT_MAX:
  assumes "prune_initialize fr lp = Inr lp1"
    and "0 \<le> tid" and "tid < toks_bpr_fr_sidx_d lp fr - toks_bpr_fr_sidx_d lp (fr - 1)"
    and "GetActiveToken lp (fr - 1) tid = Inr i"
  shows "extra_cost (toks_bpr_d lp1 i) = FLT_MAX"
proof -
  from assms(1) obtain n lp0 where n: "GetSize lp (toks_bpr_fr_sidx_d lp) (fr - 1) = Inr n"
    and f: "foldF (prune_init_tok fr) (tids n) lp = Inr lp0"
    and lp1: "lp1 = lp0\<lparr>lp_modified_d := (lp_modified_d lp0)(0 := 1, 1 := 0, 2 := 0)\<rparr>"
    by (auto simp: prune_initialize_def thenF_Inr_iff)
  from n have "n = toks_bpr_fr_sidx_d lp fr - toks_bpr_fr_sidx_d lp (fr - 1)"
    by (auto simp: GetSize_def Let_def split: if_splits)
  with assms(2,3) have "tid \<in> set (tids n)"
    by (auto simp: tids_def image_iff intro!: bexI [of _ "nat tid"])
  with prune_init_fold [OF f] assms(4) have "extra_cost (toks_bpr_d lp0 i) = FLT_MAX"
    by blast
  then show ?thesis by (simp add: lp1)
qed

text \<open>
  Claim C6, as the code has it. The constructor sets the extra cost of a new token to 0,
  not to plus infinity. Back-pruning of frame \<open>fr\<close> first sets the extra cost of every
  token of frame \<open>fr - 1\<close> to \<open>FLT_MAX\<close>, the largest finite float; after that an arc update
  leaves the extra cost of every token as it is or makes it strictly smaller.
\<close>

theorem extra_cost_lifecycle:
  "extra_cost (Token_ctor c fr0 prev) = Fin 0 \<and>
   (prune_initialize fr lp = Inr lp1 \<and> 0 \<le> tid \<and>
      tid < toks_bpr_fr_sidx_d lp fr - toks_bpr_fr_sidx_d lp (fr - 1) \<and>
      GetActiveToken lp (fr - 1) tid = Inr i \<longrightarrow>
      extra_cost (toks_bpr_d lp1 i) = FLT_MAX) \<and>
   (prune_arc_update lbeam fr m0 arc lp1 = Inr lp2 \<longrightarrow>
      extra_cost (toks_bpr_d lp2 j) = extra_cost (toks_bpr_d lp1 j) \<or>
      flt (extra_cost (toks_bpr_d lp2 j)) (extra_cost (toks_bpr_d lp1 j)))"
  using prune_initialize_FLT_MAX [of fr lp lp1 tid i]
    prune_arc_update_extra_cost [of lbeam fr m0 arc lp1 lp2 j]
  by (simp add: Token_ctor_def)

text \<open>
  Claim C6 as stated fails: the extra cost of a token just constructed is 0.
\<close>

theorem Token_extra_cost_counterexample:
  "extra_cost (Token_ctor (Fin 0) 0 None) = Fin 0 \<and>
   extra_cost (Token_ctor (Fin 0) 0 None) \<noteq> INFINITY"
  by (simp add: Token_ctor_def INFINITY_def)

theorem extra_cost_lifecycle_witness:
  "extra_cost (Token_ctor (Fin 1) 1 None) = Fin 0 \<and>
   (case prune_initialize 2 example_lp of
      Inl e \<Rightarrow> False
    | Inr lp1 \<Rightarrow>
        GetActiveToken example_lp (2 - 1) 1 = Inr 2 \<and>
        extra_cost (toks_bpr_d lp1 2) = FLT_MAX \<and>
        (case prune_arc_update (Fin 1) 2 1 0 lp1 of
           Inl e \<Rightarrow> False
         | Inr lp2 \<Rightarrow>
             extra_cost (toks_bpr_d lp2 1) = Fin 0 \<and>
             flt (extra_cost (toks_bpr_d lp2 1)) (extra_cost (toks_bpr_d lp1 1))))"
proof -
  have "\<not> isl (prune_initialize 2 example_lp)"
    by code_simp
  then obtain lp1 where a: "prune_initialize 2 example_lp = Inr lp1"
    by (cases "prune_initialize 2 example_lp") auto
  have b: "GetActiveToken example_lp (2 - 1) 1 = Inr 2"
    by code_simp
  have c: "(1::int) < toks_bpr_fr_sidx_d example_lp 2 - toks_bpr_fr_sidx_d example_lp (2 - 1)"
    by code_simp
  have d: "case prune_initialize 2 example_lp of Inl e \<Rightarrow> False | Inr lp1 \<Rightarrow>
             (case prune_arc_update (Fin 1) 2 1 0 lp1 of Inl e \<Rightarrow> False
              | Inr lp2 \<Rightarrow> extra_cost (toks_bpr_d lp2 1) = Fin 0 \<and> extra_cost (toks_bpr_d lp1 1) \<noteq> Fin 0)"
    by code_simp
  then obtain lp2 where e: "prune_arc_update (Fin 1) 2 1 0 lp1 = Inr lp2"
    and f: "extra_cost (toks_bpr_d lp2 1) = Fin 0" "extra_cost (toks_bpr_d lp1 1) \<noteq> Fin 0"
    using a by (auto split: sum.splits)
  from extra_cost_lifecycle [of "Fin 1" 1 None 2 example_lp lp1 1 2 "Fin 1" 1 0 lp2 1] a b c e f
  show ?thesis by simp
qed


subsection \<open>Which arcs survive back-pruning\<close>

lemma prune_min_extra_cost_toks:
  "toks_bpr_d (prune_min_extra_cost lbeam m0 pidx lec lp) =
     (toks_bpr_d lp)(pidx := (toks_bpr_d lp pidx)
        \<lparr>extra_cost := atomic_min (extra_cost (toks_bpr_d lp pidx))
           (if flt lec (Fin (- 1)) then fhalf lbeam else lec)\<rparr>)"
  by (auto simp: prune_min_extra_cost_def Let_def atomic_min_def fun_eq_iff)

lemma prune_arc_tokens_prev:
  "prune_arc_tokens lp fr tid = Inr (link, nidx, pidx) \<Longrightarrow>
     (\<exists>li. GetActiveArc lp fr tid = Inr li \<and> link = arcs_bpr_d lp li) \<and>
     GetActiveToken lp fr (next_tok_id link) = Inr nidx \<and>
     GetActiveToken lp (if IsEmitArc link then fr - 1 else fr) (GetPrevTokId link) = Inr pidx"
  by (auto simp: prune_arc_tokens_def thenF_Inr_iff Let_def)

text \<open>
  Claim C1, as the code has it. For the arc \<open>tid\<close> of frame \<open>fr\<close>, whose previous token is
  taken from frame \<open>fr - 1\<close> when the arc is emitting and from frame \<open>fr\<close> otherwise, let
  \<open>link_extra = next.extra_cost + (prev.cost + arc.acoustic + graph_weight[arc_id] - next.cost)\<close>
  on the current token values. An update pass min-es a cost into the previous token's
  extra cost, and the aggregate pass appends the exploded arc, if and only if
  \<open>link_extra\<close> is not NaN and at most \<open>lattice_beam\<close>; otherwise (NaN included) the pass
  leaves the state as it is. The cost that is min-ed is \<open>link_extra\<close>, except that a
  \<open>link_extra\<close> below -1 is replaced by \<open>lattice_beam / 2\<close>.
\<close>

theorem prune_arc_survives:
  assumes "prune_arc_tokens lp fr tid = Inr (link, nidx, pidx)"
  shows "GetActiveToken lp (if IsEmitArc link then fr - 1 else fr) (GetPrevTokId link) = Inr pidx \<and>
     link_extra_cost lp link nidx pidx =
       fadd (extra_cost (toks_bpr_d lp nidx))
         (fsub (fadd (fadd (cost (toks_bpr_d lp pidx)) (acoustic_cost link))
                  (lp_arc_weights lp (arc_id link)))
               (cost (toks_bpr_d lp nidx))) \<and>
     (\<exists>lp1. prune_arc_update lbeam fr m0 tid lp = Inr lp1 \<and>
        toks_bpr_d lp1 =
          (if \<not> isnan (link_extra_cost lp link nidx pidx) \<and>
              fle (link_extra_cost lp link nidx pidx) lbeam
           then (toks_bpr_d lp)(pidx := (toks_bpr_d lp pidx)
                  \<lparr>extra_cost := atomic_min (extra_cost (toks_bpr_d lp pidx))
                     (if flt (link_extra_cost lp link nidx pidx) (Fin (- 1))
                      then fhalf lbeam else link_extra_cost lp link nidx pidx)\<rparr>)
           else toks_bpr_d lp)) \<and>
     prune_arc_aggregate lbeam True fr tid lp =
       (if \<not> isnan (link_extra_cost lp link nidx pidx) \<and>
           fle (link_extra_cost lp link nidx pidx) lbeam
        then AddArc link fr lp else Inr lp) \<and>
     (isnan (link_extra_cost lp link nidx pidx) \<longrightarrow>
        prune_arc_update lbeam fr m0 tid lp = Inr lp \<and>
        prune_arc_aggregate lbeam True fr tid lp = Inr lp)"
  using assms prune_arc_tokens_prev [OF assms]
  by (simp add: prune_arc_update_def prune_arc_aggregate_def thenF_def not_pruned_def
      prune_min_extra_cost_toks link_extra_cost_def)

text \<open>
  Claim C1 as stated fails where \<open>link_extra\<close> is below -1: in the lattice with negative
  extra costs the first arc of frame 2 has \<open>link_extra = -3\<close>, which is not NaN and at most
  the beam 1, yet the previous token's extra cost becomes 1/2 (half the beam) and not the
  minimum -3 of its old value and \<open>link_extra\<close>.
\<close>

theorem prune_arc_min_counterexample:
  "case prune_initialize 2 example_neg_lp of
     Inl e \<Rightarrow> False
   | Inr lp1 \<Rightarrow>
       prune_arc_tokens lp1 2 0 = Inr (arcs_bpr_d lp1 2, 3, 1) \<and>
       link_extra_cost lp1 (arcs_bpr_d lp1 2) 3 1 = Fin (- 3) \<and>
       \<not> isnan (Fin (- 3)) \<and> fle (Fin (- 3)) (Fin 1) \<and>
       atomic_min (extra_cost (toks_bpr_d lp1 1)) (Fin (- 3)) = Fin (- 3) \<and>
       (case prune_arc_update (Fin 1) 2 1 0 lp1 of
          Inl e \<Rightarrow> False
        | Inr lp2 \<Rightarrow> extra_cost (toks_bpr_d lp2 1) = Fin (1 / 2))"
  by code_simp

theorem prune_arc_survives_witness:
  "case prune_initialize 2 example_lp of
     Inl e \<Rightarrow> False
   | Inr lp1 \<Rightarrow>
       prune_arc_tokens lp1 2 1 = Inr (arcs_bpr_d lp1 3, 3, 2) \<and>
       link_extra_cost lp1 (arcs_bpr_d lp1 3) 3 2 = Fin (3 / 2) \<and>
       prune_arc_aggregate (Fin 1) True 2 1 lp1 = Inr lp1 \<and>
       prune_arc_aggregate (Fin 2) True 2 1 lp1 = AddArc (arcs_bpr_d lp1 3) 2 lp1"
proof -
  have "\<not> isl (prune_initialize 2 example_lp)"
    by code_simp
  then obtain lp1 where a: "prune_initialize 2 example_lp = Inr lp1"
    by (cases "prune_initialize 2 example_lp") auto
  have "case prune_initialize 2 example_lp of Inl e \<Rightarrow> False | Inr lp1 \<Rightarrow>
       prune_arc_tokens lp1 2 1 = Inr (arcs_bpr_d lp1 3, 3, 2) \<and>
       link_extra_cost lp1 (arcs_bpr_d lp1 3) 3 2 = Fin (3 / 2)"
    by code_simp
  with a have b: "prune_arc_tokens lp1 2 1 = Inr (arcs_bpr_d lp1 3, 3, 2)"
    and c: "link_extra_cost lp1 (arcs_bpr_d lp1 3) 3 2 = Fin (3 / 2)"
    by simp_all
  note agg = conjunct2 [THEN conjunct2, THEN conjunct2, THEN conjunct1]
  have d: "prune_arc_aggregate (Fin 1) True 2 1 lp1 = Inr lp1"
    using prune_arc_survives [OF b, of "Fin 1" 0, THEN agg] by (simp add: c)
  have e: "prune_arc_aggregate (Fin 2) True 2 1 lp1 = AddArc (arcs_bpr_d lp1 3) 2 lp1"
    using prune_arc_survives [OF b, of "Fin 2" 0, THEN agg] by (simp add: c)
  from a b c d e show ?thesis by simp
qed

subsection \<open>Negative extra costs\<close>

lemma prune_arc_update_fault_iff:
  "prune_arc_update lbeam fr m0 tid lp = Inl e \<longleftrightarrow> prune_arc_tokens lp fr tid = Inl e"
  by (cases "prune_arc_tokens lp fr tid")
    (auto simp: prune_arc_update_def thenF_def Let_def split: prod.splits)

text \<open>
  Claim C8, as the code has it. No assertion looks at the sign of a link's extra cost: the
  update of an arc fails exactly when one of the index-bound assertions of the arc and
  token lookups fails. A negative extra cost that passes the beam test is min-ed into the
  previous token like any other, after a value below -1 has been replaced by
  \<open>lattice_beam / 2\<close>.
\<close>

theorem negative_link_extra_cost_no_fault:
  "((prune_arc_update lbeam fr m0 tid lp = Inl e) =
      (prune_arc_tokens lp fr tid = Inl e)) \<and>
   (prune_arc_tokens lp fr tid = Inr (link, nidx, pidx) \<and>
    flt (link_extra_cost lp link nidx pidx) (Fin 0) \<and>
    fle (link_extra_cost lp link nidx pidx) lbeam \<longrightarrow>
      prune_arc_update lbeam fr m0 tid lp =
        Inr (prune_min_extra_cost lbeam m0 pidx (link_extra_cost lp link nidx pidx) lp) \<and>
      extra_cost (toks_bpr_d
          (prune_min_extra_cost lbeam m0 pidx (link_extra_cost lp link nidx pidx) lp) pidx) =
        atomic_min (extra_cost (toks_bpr_d lp pidx))
          (if flt (link_extra_cost lp link nidx pidx) (Fin (- 1))
           then fhalf lbeam else link_extra_cost lp link nidx pidx))"
proof -
  have "\<not> isnan (link_extra_cost lp link nidx pidx)"
    if "flt (link_extra_cost lp link nidx pidx) (Fin 0)"
    using that by (cases "link_extra_cost lp link nidx pidx") simp_all
  then show ?thesis
    using prune_arc_update_fault_iff [of lbeam fr m0 tid lp e]
    by (auto simp: prune_arc_update_def thenF_def not_pruned_def prune_min_extra_cost_toks)
qed

text \<open>
  Claim C8 as stated fails: pruning frame 2 of the lattice with negative extra costs meets
  the link extra costs -3 and -3/2 and ends without a fault; both arcs are kept and both
  previous tokens get the extra cost 1/2.
\<close>

theorem negative_link_extra_cost_counterexample:
  "case PruneLatticeForFrame 2 True (Fin 1) example_neg_lp of
     Inl e \<Rightarrow> False
   | Inr lp1 \<Rightarrow>
       link_extra_cost example_neg_lp (arcs_bpr_d example_neg_lp 2) 3 1 = Fin (- 3) \<and>
       link_extra_cost example_neg_lp (arcs_bpr_d example_neg_lp 3) 3 2 = Fin (- 3 / 2) \<and>
       extra_cost (toks_bpr_d lp1 1) = Fin (1 / 2) \<and>
       extra_cost (toks_bpr_d lp1 2) = Fin (1 / 2) \<and>
       arcs_apr_used_d lp1 = 2"
  by code_simp

theorem negative_link_extra_cost_no_fault_witness:
  "case prune_initialize 2 example_neg_lp of
     Inl e \<Rightarrow> False
   | Inr lp1 \<Rightarrow>
       prune_arc_tokens lp1 2 0 = Inr (arcs_bpr_d lp1 2, 3, 1) \<and>
       flt (link_extra_cost lp1 (arcs_bpr_d lp1 2) 3 1) (Fin 0) \<and>
       fle (link_extra_cost lp1 (arcs_bpr_d lp1 2) 3 1) (Fin 1) \<and>
       prune_arc_update (Fin 1) 2 1 0 lp1 =
         Inr (prune_min_extra_cost (Fin 1) 1 1 (link_extra_cost lp1 (arcs_bpr_d lp1 2) 3 1) lp1) \<and>
       extra_cost (toks_bpr_d
             (prune_min_extra_cost (Fin 1) 1 1 (link_extra_cost lp1 (arcs_bpr_d lp1 2) 3 1) lp1) 1) =
         Fin (1 / 2)"
proof -
  have "\<not> isl (prune_initialize 2 example_neg_lp)"
    by code_simp
  then obtain lp1 where a: "prune_initialize 2 example_neg_lp = Inr lp1"
    by (cases "prune_initialize 2 example_neg_lp") auto
  have "case prune_initialize 2 example_neg_lp of Inl e \<Rightarrow> False | Inr lp1 \<Rightarrow>
       prune_arc_tokens lp1 2 0 = Inr (arcs_bpr_d lp1 2, 3, 1) \<and>
       link_extra_cost lp1 (arcs_bpr_d lp1 2) 3 1 = Fin (- 3) \<and>
       extra_cost (toks_bpr_d lp1 1) = FLT_MAX"
    by code_simp
  with a have b: "prune_arc_tokens lp1 2 0 = Inr (arcs_bpr_d lp1 2, 3, 1)"
    and c: "link_extra_cost lp1 (arcs_bpr_d lp1 2) 3 1 = Fin (- 3)"
    and d: "extra_cost (toks_bpr_d lp1 1) = FLT_MAX"
    by simp_all
  have e: "flt (link_extra_cost lp1 (arcs_bpr_d lp1 2) 3 1) (Fin 0)"
    and f: "fle (link_extra_cost lp1 (arcs_bpr_d lp1 2) 3 1) (Fin 1)"
    by (simp_all add: c)
  from negative_link_extra_cost_no_fault
         [of "Fin 1" 2 1 0 lp1 "AssertionFailed []" "arcs_bpr_d lp1 2" 3 1, THEN conjunct2] b e f
  have g: "prune_arc_update (Fin 1) 2 1 0 lp1 =
        Inr (prune_min_extra_cost (Fin 1) 1 1 (link_extra_cost lp1 (arcs_bpr_d lp1 2) 3 1) lp1)"
    and h: "extra_cost (toks_bpr_d
          (prune_min_extra_cost (Fin 1) 1 1 (link_extra_cost lp1 (arcs_bpr_d lp1 2) 3 1) lp1) 1) =
        atomic_min (extra_cost (toks_bpr_d lp1 1))
          (if flt (link_extra_cost lp1 (arcs_bpr_d lp1 2) 3 1) (Fin (- 1))
           then fhalf (Fin 1) else link_extra_cost lp1 (arcs_bpr_d lp1 2) 3 1)"
    by simp_all
  have i: "extra_cost (toks_bpr_d
          (prune_min_extra_cost (Fin 1) 1 1 (link_extra_cost lp1 (arcs_bpr_d lp1 2) 3 1) lp1) 1) =
        Fin (1 / 2)"
    unfolding h by (simp add: c d atomic_min_def FLT_MAX_def)
  from a b e f g i show ?thesis by simp
qed

subsection \<open>Results of computations that can fail\<close>

lemma okF_simps [simp]:
  "okF Q (Inr x) = Q x"
  "okF Q (Inl e) = True"
  by (simp_all add: okF_def)

lemma okF_thenF: "okF Q (thenF m f) = okF (\<lambda>x. okF Q (f x)) m"
  by (cases m) (simp_all add: thenF_def)

lemma okF_if: "okF Q (if b then m1 else m2) = (if b then okF Q m1 else okF Q m2)"
  by simp

lemma okF_D: "okF Q m \<Longrightarrow> m = Inr x \<Longrightarrow> Q x"
  by simp

lemma okF_PushBack:
  "okF Q (PushBack dbg val v) =
     (if dbg then ((count_d v + 1) mod 2 ^ 32 < max_size v \<longrightarrow>
           Q (count_d v, v\<lparr>count_d := (count_d v + 1) mod 2 ^ 32, mem_d := (mem_d v)(count_d v := val)\<rparr>))
      else Q (count_d v, v\<lparr>count_d := (if (count_d v + 1) mod 2 ^ 32 \<ge> max_size v
                         then (max_size v - 1) mod 2 ^ 32 else (count_d v + 1) mod 2 ^ 32),
            mem_d := (mem_d v)(count_d v := val)\<rparr>))"
  by (simp add: PushBack_def Let_def)

lemma okF_add_lattice_arc:
  "okF (\<lambda>(ret, p'). ret < max_lat_arc_per_frame p \<and>
          ret = count_d (lat_arcs_sub_vec p) - num_arcs_till_last p)
     (add_lattice_arc dbg next_idx ac ts_idx j is_emit p)"
  unfolding add_lattice_arc_def Let_def okF_thenF
  by (simp add: okF_def PushBack_def Let_def split: sum.splits)

subsection \<open>Pushing past the capacity\<close>

lemma PushBack_release:
  "PushBack False val v =
     Inr (count_d v,
          v\<lparr>count_d := (if (count_d v + 1) mod 2 ^ 32 \<ge> max_size v
                         then (max_size v - 1) mod 2 ^ 32 else (count_d v + 1) mod 2 ^ 32),
            mem_d := (mem_d v)(count_d v := val)\<rparr>)"
  by (simp add: PushBack_def Let_def)

lemma run_pushes_single:
  "run_pushes [0, 0, 0] (v, [PushStart val]) = (v', [PushDone idx]) \<longleftrightarrow>
     PushBack False val v = Inr (idx, v')"
  by (auto simp: PushBack_release Let_def)

lemma push_all_release_count:
  "0 \<le> count_d v \<Longrightarrow> count_d v + int (length xs) < max_size v \<Longrightarrow> max_size v \<le> 2 ^ 32 \<Longrightarrow>
     \<exists>v1. push_all False xs v = Inr v1 \<and> count_d v1 = count_d v + int (length xs) \<and>
          max_size v1 = max_size v"
proof (induction xs arbitrary: v)
  case Nil
  then show ?case by simp
next
  case (Cons x xs)
  let ?v' = "v\<lparr>count_d := count_d v + 1, mem_d := (mem_d v)(count_d v := x)\<rparr>"
  from Cons.prems have small: "(count_d v + 1) mod 2 ^ 32 = count_d v + 1"
    by simp
  from Cons.prems have pb: "PushBack False x v = Inr (count_d v, ?v')"
    by (simp add: PushBack_release small)
  have "\<exists>v1. push_all False xs ?v' = Inr v1 \<and> count_d v1 = count_d ?v' + int (length xs) \<and>
          max_size v1 = max_size ?v'"
    using Cons.prems by (intro Cons.IH) simp_all
  then show ?case
    by (auto simp: pb)
qed

text \<open>
  Claim C9. In the release build \<open>PushBack\<close> takes its index from the atomic increment,
  before the capacity check, which only clamps the counter; the store and the result use
  that index. So there are runs of \<open>max_size + 1\<close> pushes on an empty vector in which a push
  stores at, and returns, the index \<open>max_size\<close>, one past the last slot: after
  \<open>max_size - 1\<close> pushes, two workers push at once and both take their index before either
  checks the capacity.
\<close>

theorem PushBack_release_past_the_end:
  assumes "0 < n" and "n + 1 < 2 ^ 32" and "int (length xs) = n - 1"
    and "count_d v = 0" and "max_size v = n"
  shows "\<exists>v1. push_all False xs v = Inr v1 \<and>
           run_pushes [0, 1, 0, 1, 0, 1] (v1, [PushStart a, PushStart b]) =
             (v1\<lparr>count_d := n - 1, mem_d := (mem_d v1)(n - 1 := a, n := b)\<rparr>,
              [PushDone (n - 1), PushDone n])"
proof -
  from assms have "\<exists>v1. push_all False xs v = Inr v1 \<and> count_d v1 = count_d v + int (length xs) \<and>
          max_size v1 = max_size v"
    by (intro push_all_release_count) simp_all
  then obtain v1 where v1: "push_all False xs v = Inr v1" "count_d v1 = n - 1" "max_size v1 = n"
    using assms by auto
  have "run_pushes [0, 1, 0, 1, 0, 1] (v1, [PushStart a, PushStart b]) =
             (v1\<lparr>count_d := n - 1, mem_d := (mem_d v1)(n - 1 := a, n := b)\<rparr>,
              [PushDone (n - 1), PushDone n])"
    using assms(1,2) by (simp add: v1 Let_def)
  with v1 show ?thesis by blast
qed

theorem PushBack_release_past_the_end_witness:
  "case push_all False [10, 11, 12 :: int] (empty_vec 4 0) of
     Inl e \<Rightarrow> False
   | Inr v1 \<Rightarrow>
       (case run_pushes [0, 1, 0, 1, 0, 1] (v1, [PushStart 13, PushStart 14]) of
          (v2, ths) \<Rightarrow> ths = [PushDone 3, PushDone 4] \<and> mem_d v2 4 = 14 \<and> count_d v2 = 3 \<and>
             max_size v2 = 4)"
proof -
  have "\<exists>v1. push_all False [10, 11, 12 :: int] (empty_vec 4 0) = Inr v1 \<and>
           run_pushes [0, 1, 0, 1, 0, 1] (v1, [PushStart 13, PushStart 14]) =
             (v1\<lparr>count_d := 4 - 1, mem_d := (mem_d v1)(4 - 1 := 13, 4 := 14)\<rparr>,
              [PushDone (4 - 1), PushDone 4])"
    by (rule PushBack_release_past_the_end) (simp_all add: empty_vec_def)
  then obtain v1 where a: "push_all False [10, 11, 12 :: int] (empty_vec 4 0) = Inr v1"
    and b: "run_pushes [0, 1, 0, 1, 0, 1] (v1, [PushStart 13, PushStart 14]) =
             (v1\<lparr>count_d := 4 - 1, mem_d := (mem_d v1)(4 - 1 := 13, 4 := 14)\<rparr>,
              [PushDone (4 - 1), PushDone 4])"
    by blast
  have "case push_all False [10, 11, 12 :: int] (empty_vec 4 0) of
          Inl e \<Rightarrow> False | Inr v1 \<Rightarrow> max_size v1 = 4"
    by code_simp
  then have mx: "max_size v1 = 4"
    unfolding a by simp
  show ?thesis
    unfolding a sum.case b prod.case using mx by simp
qed

subsection \<open>The ceiling on the arcs of a frame\<close>

lemma PushBack_debug_fault:
  "PushBack True val v = Inl e \<Longrightarrow> e = AssertionFailed ''*count_d < max_size''"
  by (auto simp: PushBack_def Let_def split: if_splits)







subsection \<open>The bound on the two fixed-point loops\<close>









subsection \<open>The second pass of the recombination\<close>

lemma okF_foldF:
  assumes "\<And>x s. x \<in> set xs \<Longrightarrow> I s \<Longrightarrow> okF I (f x s)" and "I s"
  shows "okF I (foldF f xs s)"
  using assms
proof (induction xs arbitrary: s)
  case Nil
  then show ?case by simp
next
  case (Cons x xs)
  show ?case
  proof (cases "f x s")
    case (Inl e)
    then show ?thesis by simp
  next
    case (Inr s')
    from Cons.prems(1) [of x s] Cons.prems(2) Inr have "I s'" by simp
    with Cons.IH [of s'] Cons.prems(1) Inr show ?thesis by simp
  qed
qed












subsection \<open>One TokenState for a state\<close>

text \<open>Pushing a TokenState for an inactive state keeps the invariant.\<close>

lemma toks_inv_push:
  assumes inv: "toks_inv p" and s: "current_tokens_lookup p s = LOOKUP_DEACTIVE"
    and c: "0 \<le> count_d (cur_toks p)"
    and ts: "state ts = s"
  shows "toks_inv (p\<lparr>cur_toks := (cur_toks p)\<lparr>count_d := count_d (cur_toks p) + 1,
                         mem_d := (mem_d (cur_toks p))(count_d (cur_toks p) := ts)\<rparr>,
                     current_tokens_lookup := (current_tokens_lookup p)(s := count_d (cur_toks p))\<rparr>)"
proof -
  let ?c = "count_d (cur_toks p)"
  let ?m = "mem_d (cur_toks p)"
  from inv have uniq: "\<And>i j. 0 \<le> i \<Longrightarrow> i < ?c \<Longrightarrow> 0 \<le> j \<Longrightarrow> j < ?c \<Longrightarrow>
      state (?m i) = state (?m j) \<Longrightarrow> i = j"
    unfolding toks_inv_def uniq_states_def by blast
  from inv have act: "\<And>i. 0 \<le> i \<Longrightarrow> i < ?c \<Longrightarrow>
      current_tokens_lookup p (state (?m i)) \<noteq> LOOKUP_DEACTIVE"
    unfolding toks_inv_def by blast
  have old: "state (?m j) \<noteq> s" if "0 \<le> j" "j < ?c" for j
    using act [OF that] s by auto
  from inv have mx: "0 < max_size (cur_toks p)" "max_size (cur_toks p) < 2 ^ 32"
    unfolding toks_inv_def by simp_all
  have u: "\<forall>i j. 0 \<le> i \<and> i < ?c + 1 \<and> 0 \<le> j \<and> j < ?c + 1 \<and>
      state ((?m(?c := ts)) i) = state ((?m(?c := ts)) j) \<longrightarrow> i = j"
  proof (intro allI impI)
    fix i j
    assume h: "0 \<le> i \<and> i < ?c + 1 \<and> 0 \<le> j \<and> j < ?c + 1 \<and>
      state ((?m(?c := ts)) i) = state ((?m(?c := ts)) j)"
    show "i = j"
    proof (cases "i = ?c")
      case True
      show ?thesis
      proof (cases "j = ?c")
        case True
        with \<open>i = ?c\<close> show ?thesis by simp
      next
        case False
        with h have "0 \<le> j" "j < ?c" by simp_all
        from old [OF this] h True False ts show ?thesis by simp
      qed
    next
      case False
      with h have i: "0 \<le> i" "i < ?c" by simp_all
      show ?thesis
      proof (cases "j = ?c")
        case True
        from old [OF i] h True False ts show ?thesis by simp
      next
        case jc: False
        with h have "0 \<le> j" "j < ?c" by simp_all
        from uniq [OF i this] h False jc show ?thesis by simp
      qed
    qed
  qed
  have l: "\<forall>i. 0 \<le> i \<and> i < ?c + 1 \<longrightarrow>
      ((current_tokens_lookup p)(s := ?c)) (state ((?m(?c := ts)) i)) \<noteq> LOOKUP_DEACTIVE"
  proof (intro allI impI)
    fix i assume h: "0 \<le> i \<and> i < ?c + 1"
    show "((current_tokens_lookup p)(s := ?c)) (state ((?m(?c := ts)) i)) \<noteq> LOOKUP_DEACTIVE"
    proof (cases "i = ?c")
      case True
      with ts c show ?thesis by (simp add: LOOKUP_DEACTIVE_def)
    next
      case False
      with h have i: "0 \<le> i" "i < ?c" by simp_all
      from old [OF i] act [OF i] False show ?thesis by simp
    qed
  qed
  define q where "q = p\<lparr>cur_toks := (cur_toks p)\<lparr>count_d := ?c + 1, mem_d := ?m(?c := ts)\<rparr>,
                     current_tokens_lookup := (current_tokens_lookup p)(s := ?c)\<rparr>"
  have cq: "count_d (cur_toks q) = ?c + 1" "mem_d (cur_toks q) = ?m(?c := ts)"
    "max_size (cur_toks q) = max_size (cur_toks p)"
    "current_tokens_lookup q = (current_tokens_lookup p)(s := ?c)"
    by (simp_all add: q_def)
  have "toks_inv q"
    unfolding toks_inv_def uniq_states_def cq using mx u l by blast
  then show ?thesis by (simp only: q_def)
qed



lemma thenF_Inr_D: "thenF m f = Inr y \<Longrightarrow> \<exists>x. m = Inr x \<and> f x = Inr y"
  by (simp add: thenF_Inr_iff)

lemma PushBack_Inr_D:
  assumes "PushBack dbg val v = Inr (idx, v')"
  shows "idx = count_d v \<and>
         (\<exists>c'. v' = v\<lparr>count_d := c', mem_d := (mem_d v)(count_d v := val)\<rparr> \<and>
               (c' = (count_d v + 1) mod 2 ^ 32 \<or>
                c' = (max_size v - 1) mod 2 ^ 32 \<and> max_size v \<le> (count_d v + 1) mod 2 ^ 32))"
  using assms by (cases dbg) (auto simp: PushBack_def Let_def split: if_splits)

lemma push_count_step:
  assumes "0 < (m::int)" "m < 2 ^ 32" "0 \<le> c" "c < c'"
    and "c' = (c + 1) mod 2 ^ 32 \<or> c' = (m - 1) mod 2 ^ 32 \<and> m \<le> (c + 1) mod 2 ^ 32"
  shows "c' = c + 1"
proof -
  have le: "(c + 1) mod 2 ^ 32 \<le> c + 1"
    using assms(3) by (simp add: zmod_le_nonneg_dividend)
  from assms(5) show ?thesis
  proof
    assume "c' = (c + 1) mod 2 ^ 32"
    with le assms(4) show ?thesis by simp
  next
    assume h: "c' = (m - 1) mod 2 ^ 32 \<and> m \<le> (c + 1) mod 2 ^ 32"
    with assms(1,2) have "c' = m - 1" by simp
    with h le assms(4) show ?thesis by simp
  qed
qed

lemma activate_token_Inr_D:
  assumes a: "activate_token u dbg s p = Inr q"
    and mx: "0 < max_size (cur_toks p)" "max_size (cur_toks p) < 2 ^ 32"
  shows "0 \<le> count_d (cur_toks p) \<and>
         (\<exists>alloc. q = p\<lparr>cur_toks := (cur_toks p)
                          \<lparr>count_d := count_d (cur_toks p) + 1,
                           mem_d := (mem_d (cur_toks p))(count_d (cur_toks p) :=
                              (TokenState_ctor u s)\<lparr>tok_idx_allocated := alloc\<rparr>)\<rparr>,
                        current_tokens_lookup :=
                          (current_tokens_lookup p)(s := count_d (cur_toks p))\<rparr>)"
proof -
  let ?c = "count_d (cur_toks p)"
  from a obtain r where pb: "PushBack dbg (TokenState_ctor u s) (cur_toks p) = Inr r"
    and rest: "(case r of (tokenstate_idx, v) \<Rightarrow>
       let p1 = p\<lparr>cur_toks := v,
                  current_tokens_lookup := (current_tokens_lookup p)(s := tokenstate_idx)\<rparr>
       in thenF (GetTokenAllocIdx dbg (lattice_processor p1) tokenstate_idx) (\<lambda>alloc.
          thenF (vec_at (cur_toks p1) tokenstate_idx) (\<lambda>ts.
            Inr (p1\<lparr>cur_toks := (cur_toks p1)\<lparr>mem_d := (mem_d (cur_toks p1))
                       (tokenstate_idx := ts\<lparr>tok_idx_allocated := alloc\<rparr>)\<rparr>\<rparr>)))) = Inr q"
    unfolding activate_token_def by (drule_tac thenF_Inr_D) blast
  obtain idx v where r: "r = (idx, v)" by (cases r)
  from PushBack_Inr_D [OF pb [unfolded r]] obtain c' where idx: "idx = ?c"
    and v: "v = (cur_toks p)\<lparr>count_d := c', mem_d := (mem_d (cur_toks p))(?c := TokenState_ctor u s)\<rparr>"
    and c': "c' = (?c + 1) mod 2 ^ 32 \<or>
             c' = (max_size (cur_toks p) - 1) mod 2 ^ 32 \<and> max_size (cur_toks p) \<le> (?c + 1) mod 2 ^ 32"
    by blast
  let ?p1 = "p\<lparr>cur_toks := v, current_tokens_lookup := (current_tokens_lookup p)(s := idx)\<rparr>"
  from rest [unfolded r] obtain alloc ts where va: "vec_at (cur_toks ?p1) idx = Inr ts"
    and q: "q = ?p1\<lparr>cur_toks := (cur_toks ?p1)\<lparr>mem_d := (mem_d (cur_toks ?p1))
                       (idx := ts\<lparr>tok_idx_allocated := alloc\<rparr>)\<rparr>\<rparr>"
    by (auto simp: Let_def dest!: thenF_Inr_D)
  from va have rng: "0 \<le> ?c" "?c < c'" and ts: "ts = TokenState_ctor u s"
    by (auto simp: vec_at_def idx v split: if_splits)
  from push_count_step [OF mx rng c'] have "c' = ?c + 1" .
  with q rng show ?thesis
    by (auto simp: idx v ts intro!: exI [of _ alloc])
qed


lemma add_lattice_arc_Inr_D:
  "add_lattice_arc dbg next_idx ac ts_idx j is_emit p = Inr (ret, q) \<Longrightarrow>
     \<exists>av. q = p\<lparr>lat_arcs_sub_vec := av\<rparr>"
  unfolding add_lattice_arc_def Let_def
  by (auto dest!: thenF_Inr_D split: if_splits)

lemma toks_inv_activate:
  assumes "toks_inv p" and "current_tokens_lookup p s = LOOKUP_DEACTIVE"
    and "activate_token u dbg s p = Inr q"
  shows "toks_inv q \<and> token_per_arc q = token_per_arc p \<and>
         token_per_arc_update_d q = token_per_arc_update_d p \<and>
         lattice_processor q = lattice_processor p \<and> cutoff q = cutoff p"
proof -
  from assms(1) have mx: "0 < max_size (cur_toks p)" "max_size (cur_toks p) < 2 ^ 32"
    by (simp_all add: toks_inv_def)
  from activate_token_Inr_D [OF assms(3) mx] obtain alloc where c: "0 \<le> count_d (cur_toks p)"
    and q: "q = p\<lparr>cur_toks := (cur_toks p)
                          \<lparr>count_d := count_d (cur_toks p) + 1,
                           mem_d := (mem_d (cur_toks p))(count_d (cur_toks p) :=
                              (TokenState_ctor u s)\<lparr>tok_idx_allocated := alloc\<rparr>)\<rparr>,
                        current_tokens_lookup :=
                          (current_tokens_lookup p)(s := count_d (cur_toks p))\<rparr>"
    by blast
  have "toks_inv q"
    unfolding q by (rule toks_inv_push [OF assms(1,2) c]) (simp add: TokenState_ctor_def)
  then show ?thesis by (simp add: q)
qed

lemma toks_inv_cong:
  assumes "toks_inv p"
    and "count_d (cur_toks q) = count_d (cur_toks p)"
    and "max_size (cur_toks q) = max_size (cur_toks p)"
    and "\<And>i. state (mem_d (cur_toks q) i) = state (mem_d (cur_toks p) i)"
    and "current_tokens_lookup q = current_tokens_lookup p"
  shows "toks_inv q"
  using assms(1) unfolding toks_inv_def uniq_states_def assms(2,3,4,5) .

lemma find_or_add_token_arc_inv:
  assumes inv: "toks_inv p"
    and f: "find_or_add_token_arc u dbg s ac ts_idx j add_arc ui0 is_emit p = Inr (ni, ui, q)"
  shows "toks_inv q \<and> token_per_arc q = token_per_arc p \<and>
         token_per_arc_update_d q = token_per_arc_update_d p \<and>
         lattice_processor q = lattice_processor p \<and> cutoff q = cutoff p"
proof -
  from f obtain q1 where
    a: "(if current_tokens_lookup p s = LOOKUP_DEACTIVE
         then activate_token u dbg s p else Inr p) = Inr q1"
    and r: "(let idx = current_tokens_lookup q1 s
       in if idx = LOOKUP_DEACTIVE \<or> idx = LOOKUP_READY_PUSH then Inl SpinsForever
          else thenF (vec_at (cur_toks q1) idx) (\<lambda>next_ts.
                 if add_arc
                 then thenF (add_lattice_arc dbg idx ac ts_idx j is_emit q1) (\<lambda>(ret, p2).
                        Inr (idx, ret, p2))
                 else Inr (idx, ui0, q1))) = Inr (ni, ui, q)"
    unfolding find_or_add_token_arc_def by (drule_tac thenF_Inr_D) blast
  have q1: "toks_inv q1 \<and> token_per_arc q1 = token_per_arc p \<and>
         token_per_arc_update_d q1 = token_per_arc_update_d p \<and>
         lattice_processor q1 = lattice_processor p \<and> cutoff q1 = cutoff p"
  proof (cases "current_tokens_lookup p s = LOOKUP_DEACTIVE")
    case True
    with a have "activate_token u dbg s p = Inr q1" by simp
    from toks_inv_activate [OF inv True this] show ?thesis .
  next
    case False
    with a inv show ?thesis by simp
  qed
  have "q = q1 \<or> (\<exists>av. q = q1\<lparr>lat_arcs_sub_vec := av\<rparr>)"
    using r by (auto simp: Let_def dest!: thenF_Inr_D add_lattice_arc_Inr_D split: if_splits)
  then show ?thesis
  proof
    assume "q = q1"
    with q1 show ?thesis by simp
  next
    assume "\<exists>av. q = q1\<lparr>lat_arcs_sub_vec := av\<rparr>"
    then obtain av where q: "q = q1\<lparr>lat_arcs_sub_vec := av\<rparr>" by blast
    have "toks_inv q"
      by (rule toks_inv_cong [of q1]) (simp_all add: q q1)
    with q1 show ?thesis by (simp add: q)
  qed
qed


lemma toks_inv_atomicMax_pack:
  assumes "toks_inv p"
  shows "toks_inv (snd (atomicMax_pack ni np p)) \<and>
         token_per_arc (snd (atomicMax_pack ni np p)) = token_per_arc p \<and>
         token_per_arc_update_d (snd (atomicMax_pack ni np p)) = token_per_arc_update_d p \<and>
         lattice_processor (snd (atomicMax_pack ni np p)) = lattice_processor p \<and>
         p_frame (snd (atomicMax_pack ni np p)) = p_frame p \<and>
         cutoff (snd (atomicMax_pack ni np p)) = cutoff p"
proof -
  have "toks_inv (snd (atomicMax_pack ni np p))"
    by (rule toks_inv_cong [OF assms]) (simp_all add: atomicMax_pack_def Let_def)
  then show ?thesis by (simp add: atomicMax_pack_def Let_def)
qed

lemma temp_tokens_below_write:
  assumes "temp_tokens_below c A p" and "fle (cost t) c"
  shows "temp_tokens_below c A
           (p\<lparr>token_per_arc := (token_per_arc p)(k := t),
              token_per_arc_update_d := (token_per_arc_update_d p)(k := v),
              modified := md\<rparr>)"
  using assms by (simp add: temp_tokens_below_def)

lemma temp_tokens_below_cong:
  assumes "temp_tokens_below c A p"
    and "token_per_arc q = token_per_arc p"
    and "token_per_arc_update_d q = token_per_arc_update_d p"
    and "lattice_processor q = lattice_processor p"
  shows "temp_tokens_below c A q"
  using assms(1) unfolding temp_tokens_below_def assms(2,3,4) .

lemma if_Inr_cases:
  "(if a then (if b then Inr x else Inl e) else Inr y) = Inr q \<Longrightarrow> q = y \<or> q = x"
  by (cases a; cases b) simp_all

lemma process_nonemit_arc_shape:
  assumes r: "process_nonemit_arc u dbg c m0 i tok_idx j p = Inr q"
    and t: "fle (cost (Token_ctor (arc_weights p j) (p_frame p)
                   (Some (toks_bpr_d (lattice_processor p) tok_idx)))) c"
  obtains ni ui q1 np where
           "find_or_add_token_arc u dbg (arc_nextstates p j) (Fin 0) i j True 0 False p =
             Inr (ni, ui, q1)" and
           "q = snd (atomicMax_pack ni np q1) \<or>
            q = (snd (atomicMax_pack ni np q1))
                  \<lparr>token_per_arc := (token_per_arc (snd (atomicMax_pack ni np q1)))
                     (ui := Token_ctor (arc_weights p j) (p_frame (snd (atomicMax_pack ni np q1)))
                              (Some (toks_bpr_d (lattice_processor p) tok_idx))),
                   token_per_arc_update_d :=
                     (token_per_arc_update_d (snd (atomicMax_pack ni np q1)))(ui := 1),
                   modified := (modified (snd (atomicMax_pack ni np q1)))(m0 := 1)\<rparr>"
proof -
  let ?weight = "arc_weights p j"
  let ?tok = "toks_bpr_d (lattice_processor p) tok_idx"
  from r t obtain x where
    f: "find_or_add_token_arc u dbg (arc_nextstates p j) (Fin 0) i j True 0 False p = Inr x"
    and rest: "(case x of (next_idx, update_idx, r1) \<Rightarrow>
               let new_token_pack = pack_cost_idx_into_uint64 u (fneg (fadd (cost ?tok) ?weight)) update_idx;
                   (ret, r2) = atomicMax_pack next_idx new_token_pack r1
               in if ret < new_token_pack then
                    (if update_idx < max_lat_arc_per_frame r2 then
                       Inr (r2\<lparr>token_per_arc := (token_per_arc r2)
                                  (update_idx := Token_ctor ?weight (p_frame r2) (Some ?tok)),
                               token_per_arc_update_d := (token_per_arc_update_d r2)(update_idx := 1),
                               modified := (modified r2)(m0 := 1)\<rparr>)
                     else Inl (AssertionFailed ''update_idx < params->max_lat_arc_per_frame''))
                  else Inr r2) = Inr q"
    unfolding process_nonemit_arc_def Let_def by (simp only: if_True) (drule thenF_Inr_D, blast)
  obtain ni ui q1 where x: "x = (ni, ui, q1)" by (cases x)
  let ?np = "pack_cost_idx_into_uint64 u (fneg (fadd (cost ?tok) ?weight)) ui"
  note rest' = rest [unfolded x prod.case Let_def case_prod_beta]
  note c = if_Inr_cases [OF rest', unfolded fst_conv snd_conv]
  show thesis by (rule that [OF f [unfolded x] c])
qed


lemma process_nonemit_arc_inv:
  assumes inv: "frame_inv G c A p"
    and r: "process_nonemit_arc u dbg c m0 i tok_idx j p = Inr q"
  shows "frame_inv G c A q"
proof -
  let ?weight = "arc_weights p j"
  let ?tok = "toks_bpr_d (lattice_processor p) tok_idx"
  show ?thesis
  proof (cases "fle (cost (Token_ctor ?weight (p_frame p) (Some ?tok))) c")
    case False
    with r have "q = p" by (simp add: process_nonemit_arc_def Let_def)
    with inv show ?thesis by simp
  next
    case True
    from r True obtain ni ui q1 np where
      f: "find_or_add_token_arc u dbg (arc_nextstates p j) (Fin 0) i j True 0 False p =
            Inr (ni, ui, q1)"
      and c: "q = snd (atomicMax_pack ni np q1) \<or>
            q = (snd (atomicMax_pack ni np q1))
                  \<lparr>token_per_arc := (token_per_arc (snd (atomicMax_pack ni np q1)))
                     (ui := Token_ctor (arc_weights p j) (p_frame (snd (atomicMax_pack ni np q1)))
                              (Some (toks_bpr_d (lattice_processor p) tok_idx))),
                   token_per_arc_update_d :=
                     (token_per_arc_update_d (snd (atomicMax_pack ni np q1)))(ui := 1),
                   modified := (modified (snd (atomicMax_pack ni np q1)))(m0 := 1)\<rparr>"
      by (rule process_nonemit_arc_shape)
    define q2 where "q2 = snd (atomicMax_pack ni np q1)"
    from inv have ti: "toks_inv p" by (simp add: frame_inv_def)
    note q1 = find_or_add_token_arc_inv [OF ti f]
    from q1 have ti1: "toks_inv q1" by simp
    note q2 = toks_inv_atomicMax_pack [OF ti1, of ni np, folded q2_def]
    have below2: "temp_tokens_below c A q2" if G
    proof -
      from inv that have "temp_tokens_below c A p" by (simp add: frame_inv_def)
      then show ?thesis by (rule temp_tokens_below_cong) (simp_all add: q1 q2)
    qed
    have inv2: "frame_inv G c A q2"
      using q2 below2 by (simp add: frame_inv_def)
    from c [folded q2_def] show ?thesis
    proof
      assume "q = q2"
      with inv2 show ?thesis by simp
    next
      assume q: "q = q2\<lparr>token_per_arc := (token_per_arc q2)
                     (ui := Token_ctor (arc_weights p j) (p_frame q2)
                              (Some (toks_bpr_d (lattice_processor p) tok_idx))),
                   token_per_arc_update_d := (token_per_arc_update_d q2)(ui := 1),
                   modified := (modified q2)(m0 := 1)\<rparr>"
      have c3: "fle (cost (Token_ctor ?weight (p_frame q2) (Some ?tok))) c"
        using True by (simp add: Token_ctor_def)
      have t3: "toks_inv q"
        unfolding q using q2 by (intro toks_inv_cong [of q2 "q2\<lparr>token_per_arc := tpa, token_per_arc_update_d := tpu, modified := md\<rparr>" for tpa tpu md]) simp_all
      have "temp_tokens_below c A q" if G
        unfolding q by (rule temp_tokens_below_write [OF below2 [OF that] c3])
      with t3 show ?thesis by (simp add: frame_inv_def)
    qed
  qed
qed

lemma foldF_inv:
  assumes "\<And>x s s'. I s \<Longrightarrow> f x s = Inr s' \<Longrightarrow> I s'" and "I s" and "foldF f xs s = Inr s'"
  shows "I s'"
  using assms(2,3)
proof (induction xs arbitrary: s)
  case Nil
  then show ?case by simp
next
  case (Cons x xs)
  from Cons.prems(2) obtain s1 where a: "f x s = Inr s1" and b: "foldF f xs s1 = Inr s'"
    by (auto split: sum.splits)
  from assms(1) [OF Cons.prems(1) a] have "I s1" .
  from Cons.IH [OF this b] show ?case .
qed

lemma process_nonemit_token_inv:
  assumes inv: "frame_inv G c A p"
    and r: "process_nonemit_token u dbg c m0 i p = Inr q"
  shows "frame_inv G c A q"
proof -
  from thenF_Inr_D [OF r [unfolded process_nonemit_token_def Let_def]]
  obtain ts :: TokenState where a: "thenF (GetTokenByExactIdx dbg (lattice_processor p) (tok_idx_allocated ts))
      (\<lambda>tok_idx. foldF (process_nonemit_arc u dbg c m0 i tok_idx)
          [ne_offsets p (state ts)..ne_offsets p (state ts + 1) - 1] p) = Inr q"
    by blast
  from thenF_Inr_D [OF a] obtain tok_idx where
    f: "foldF (process_nonemit_arc u dbg c m0 i tok_idx)
          [ne_offsets p (state ts)..ne_offsets p (state ts + 1) - 1] p = Inr q"
    by blast
  show ?thesis
    by (rule foldF_inv [where I = "frame_inv G c A", OF _ inv f]) (rule process_nonemit_arc_inv)
qed

subsection \<open>The expansion of a frame\<close>

lemma store_slot_Inr_D:
  assumes "store_slot u dbg b tid p = Inr q"
  shows "(\<exists>mu. q = p\<lparr>cur_toks := (cur_toks p)\<lparr>mem_update_d := mu\<rparr>\<rparr>) \<or>
    (\<exists>mu k a. token_per_arc_update_d p k \<noteq> 0 \<and>
       q = p\<lparr>cur_toks := (cur_toks p)\<lparr>mem_update_d := mu\<rparr>,
             token_per_arc_update_d := (token_per_arc_update_d p)(k := 0),
             lattice_processor := (lattice_processor p)
               \<lparr>toks_bpr_d := (toks_bpr_d (lattice_processor p))(a := token_per_arc p k)\<rparr>\<rparr>)"
proof -
  let ?k = "unpack_idx_from_uint64 u (token_pack (mem_d (cur_toks p) tid))"
  let ?mu = "(mem_update_d (cur_toks p))(tid := token_per_arc_update_d p ?k)"
  show ?thesis
  proof (cases "token_per_arc_update_d p ?k \<noteq> 0")
    case False
    with assms have "q = p\<lparr>cur_toks := (cur_toks p)\<lparr>mem_update_d := ?mu\<rparr>\<rparr>"
      by (simp add: store_slot_def Let_def split: if_splits)
    then show ?thesis by blast
  next
    case True
    with assms obtain a where
      "q = p\<lparr>cur_toks := (cur_toks p)\<lparr>mem_update_d := ?mu\<rparr>,
             token_per_arc_update_d := (token_per_arc_update_d p)(?k := 0),
             lattice_processor := (lattice_processor p)
               \<lparr>toks_bpr_d := (toks_bpr_d (lattice_processor p))(a := token_per_arc p ?k)\<rparr>\<rparr>"
      by (auto simp: store_slot_def Let_def thenF_Inr_iff split: if_splits)
    with True show ?thesis by blast
  qed
qed


lemma frame_inv_mem_update:
  assumes "frame_inv G c A p"
  shows "frame_inv G c A (p\<lparr>cur_toks := (cur_toks p)\<lparr>mem_update_d := mu\<rparr>\<rparr>)"
proof -
  from assms have "toks_inv p" by (simp add: frame_inv_def)
  then have t: "toks_inv (p\<lparr>cur_toks := (cur_toks p)\<lparr>mem_update_d := mu\<rparr>\<rparr>)"
    by (rule toks_inv_cong) simp_all
  have "temp_tokens_below c A (p\<lparr>cur_toks := (cur_toks p)\<lparr>mem_update_d := mu\<rparr>\<rparr>)" if G
  proof -
    from assms that have "temp_tokens_below c A p" by (simp add: frame_inv_def)
    then show ?thesis by (rule temp_tokens_below_cong) simp_all
  qed
  with t show ?thesis by (simp add: frame_inv_def)
qed

lemma temp_tokens_below_store:
  assumes "temp_tokens_below c A p" and "token_per_arc_update_d p k \<noteq> 0"
  shows "temp_tokens_below c A
           (p\<lparr>cur_toks := ct,
              token_per_arc_update_d := (token_per_arc_update_d p)(k := 0),
              lattice_processor := (lattice_processor p)
                \<lparr>toks_bpr_d := (toks_bpr_d (lattice_processor p))(a := token_per_arc p k)\<rparr>\<rparr>)"
  using assms by (simp add: temp_tokens_below_def)

lemma frame_inv_store:
  assumes "frame_inv G c A p" and k: "token_per_arc_update_d p k \<noteq> 0"
  shows "frame_inv G c A
           (p\<lparr>cur_toks := (cur_toks p)\<lparr>mem_update_d := mu\<rparr>,
              token_per_arc_update_d := (token_per_arc_update_d p)(k := 0),
              lattice_processor := (lattice_processor p)
                \<lparr>toks_bpr_d := (toks_bpr_d (lattice_processor p))(a := token_per_arc p k)\<rparr>\<rparr>)"
    (is "frame_inv G c A ?q")
proof -
  from assms have "toks_inv p" by (simp add: frame_inv_def)
  then have t: "toks_inv ?q"
    by (rule toks_inv_cong) simp_all
  have "temp_tokens_below c A ?q" if G
  proof -
    from assms that have "temp_tokens_below c A p" by (simp add: frame_inv_def)
    then show ?thesis using k by (rule temp_tokens_below_store)
  qed
  with t show ?thesis by (simp add: frame_inv_def)
qed

lemma store_slot_inv:
  assumes "frame_inv G c A p" and "store_slot u dbg b tid p = Inr q"
  shows "frame_inv G c A q"
  using store_slot_Inr_D [OF assms(2)]
proof (elim disjE exE conjE)
  fix mu assume "q = p\<lparr>cur_toks := (cur_toks p)\<lparr>mem_update_d := mu\<rparr>\<rparr>"
  then show ?thesis by (simp only: frame_inv_mem_update [OF assms(1)])
next
  fix mu k a
  assume k: "token_per_arc_update_d p k \<noteq> 0"
    and "q = p\<lparr>cur_toks := (cur_toks p)\<lparr>mem_update_d := mu\<rparr>,
             token_per_arc_update_d := (token_per_arc_update_d p)(k := 0),
             lattice_processor := (lattice_processor p)
               \<lparr>toks_bpr_d := (toks_bpr_d (lattice_processor p))(a := token_per_arc p k)\<rparr>\<rparr>"
  then show ?thesis by (simp only: frame_inv_store [OF assms(1) k])
qed

lemma StoreDataByPackIdx_inv:
  assumes "frame_inv G c A p" and "StoreDataByPackIdx u dbg b p = Inr q"
  shows "frame_inv G c A q"
  by (rule foldF_inv [where I = "frame_inv G c A", OF _ assms(1) assms(2) [unfolded StoreDataByPackIdx_def]])
     (rule store_slot_inv)

lemma store_slot_cutoff:
  assumes "store_slot u dbg b tid p = Inr q"
  shows "cutoff q = cutoff p"
  using store_slot_Inr_D [OF assms] by (elim disjE exE conjE) simp_all

lemma StoreDataByPackIdx_cutoff:
  assumes "StoreDataByPackIdx u dbg b p = Inr q"
  shows "cutoff q = cutoff p"
proof -
  have "cutoff q = cutoff p \<and> True"
    by (rule foldF_inv [where I = "\<lambda>s. cutoff s = cutoff p \<and> True",
          OF _ _ assms [unfolded StoreDataByPackIdx_def]])
       (simp_all add: store_slot_cutoff)
  then show ?thesis by simp
qed

lemma frame_inv_cong:
  assumes "frame_inv G c A p"
    and "cur_toks q = cur_toks p"
    and "current_tokens_lookup q = current_tokens_lookup p"
    and "token_per_arc q = token_per_arc p"
    and "token_per_arc_update_d q = token_per_arc_update_d p"
    and "lattice_processor q = lattice_processor p"
  shows "frame_inv G c A q"
  using assms(1)
  unfolding frame_inv_def toks_inv_def uniq_states_def temp_tokens_below_def assms(2-6) .

lemma aggregate_updated_inv:
  "frame_inv G c A p \<Longrightarrow> frame_inv G c A (aggregate_updated n xs p)"
proof (induction xs arbitrary: p)
  case Nil
  then show ?case by simp
next
  case (Cons x xs)
  have a: "frame_inv G c A (p\<lparr>agg_idx := v\<rparr>)" for v
    by (rule frame_inv_cong [OF Cons.prems]) simp_all
  have b: "frame_inv G c A (p\<lparr>agg_idx := v, ne_queue := w\<rparr>)" for v w
    by (rule frame_inv_cong [OF Cons.prems]) simp_all
  show ?case
    using Cons.IH [OF b] Cons.IH [OF Cons.prems] a by (simp add: Let_def)
qed

lemma dispatch_queue_inv:
  "frame_inv G c A p \<Longrightarrow> dispatch_queue u dbg c m0 n js p = Inr q \<Longrightarrow> frame_inv G c A q"
proof (induction js arbitrary: p)
  case Nil
  have "frame_inv G c A (p\<lparr>ne_idx := ne_idx p + 1\<rparr>)"
    by (rule frame_inv_cong [OF Nil.prems(1)]) simp_all
  with Nil.prems(2) show ?case by auto
next
  case (Cons j js)
  let ?p1 = "p\<lparr>ne_idx := ne_idx p + 1\<rparr>"
  have p1: "frame_inv G c A ?p1"
    by (rule frame_inv_cong [OF Cons.prems(1)]) simp_all
  show ?case
  proof (cases "ne_queue ?p1 j \<ge> n")
    case True
    with Cons.prems(2) have "q = ?p1" by (simp add: Let_def)
    with p1 show ?thesis by simp
  next
    case False
    with Cons.prems(2) obtain r where
      r: "process_nonemit_token u dbg c m0 (ne_queue ?p1 j) ?p1 = Inr r"
      and d: "dispatch_queue u dbg c m0 n js r = Inr q"
      by (simp add: Let_def split: sum.splits)
    from process_nonemit_token_inv [OF p1 r] have "frame_inv G c A r" .
    from Cons.IH [OF this d] show ?thesis .
  qed
qed

lemma process_nonemitting_tokens_inv:
  assumes inv: "frame_inv G c A p"
    and r: "process_nonemitting_tokens u dbg c n m0 agg p = Inr q"
  shows "frame_inv G c A q"
proof -
  from r have n: "n \<noteq> 0" by (auto simp: process_nonemitting_tokens_def)
  from r [unfolded process_nonemitting_tokens_def] n obtain p2 where
    a: "(if agg
         then (let p1 = aggregate_updated n (tids n) p
               in dispatch_queue u dbg c m0 n [ne_idx p1..agg_idx p1 - 1] p1)
         else thenF (foldF (process_nonemit_token u dbg c m0) [ne_idx p..n - 1] p)
                (\<lambda>p1. Inr (p1\<lparr>ne_idx := max (ne_idx p) n + 1\<rparr>))) = Inr p2"
    and s: "StoreDataByPackIdx u dbg (numArcs p2) p2 = Inr q"
    by (simp only: if_False) (drule thenF_Inr_D, blast)
  have "frame_inv G c A p2"
  proof (cases agg)
    case True
    with a have d: "dispatch_queue u dbg c m0 n
        [ne_idx (aggregate_updated n (tids n) p)..agg_idx (aggregate_updated n (tids n) p) - 1]
        (aggregate_updated n (tids n) p) = Inr p2"
      by (simp add: Let_def)
    from dispatch_queue_inv [OF aggregate_updated_inv [OF inv] d] show ?thesis .
  next
    case False
    with a have "thenF (foldF (process_nonemit_token u dbg c m0) [ne_idx p..n - 1] p)
                (\<lambda>p1. Inr (p1\<lparr>ne_idx := max (ne_idx p) n + 1\<rparr>)) = Inr p2"
      by simp
    from thenF_Inr_D [OF this] obtain p1 where
      f: "foldF (process_nonemit_token u dbg c m0) [ne_idx p..n - 1] p = Inr p1"
      and p2: "p2 = p1\<lparr>ne_idx := max (ne_idx p) n + 1\<rparr>"
      by auto
    have "frame_inv G c A p1"
      by (rule foldF_inv [where I = "frame_inv G c A", OF _ inv f])
         (rule process_nonemit_token_inv)
    then show ?thesis unfolding p2 by (rule frame_inv_cong) simp_all
  qed
  from StoreDataByPackIdx_inv [OF this s] show ?thesis .
qed

lemma closure_loop_inv:
  "frame_inv G c A p \<Longrightarrow> fst (closure_loop u dbg is_init c cnt m0 p) = Inr q \<Longrightarrow>
   frame_inv G c A q"
proof (induction u dbg is_init c cnt m0 p rule: closure_loop.induct)
  case (1 u dbg is_init c cnt m0 p)
  let ?p2 = "p\<lparr>ne_idx := 0, agg_idx := 0, modified := (modified p)(m0 := 0)\<rparr>"
  have p2: "frame_inv G c A ?p2"
    by (rule frame_inv_cong [OF "1.prems"(1)]) simp_all
  let ?r = "process_nonemitting_tokens u dbg c (Size (cur_toks p)) (1 - m0)
              (\<not> is_init \<and> cnt + 1 > 1) ?p2"
  show ?case
  proof (cases ?r)
    case (Inl e)
    with "1.prems"(2) show ?thesis
      by (subst (asm) closure_loop.simps) (simp add: Let_def)
  next
    case (Inr p3)
    from process_nonemitting_tokens_inv [OF p2 Inr] have p3: "frame_inv G c A p3" .
    show ?thesis
    proof (cases "modified p3 (1 - m0) = 1 \<and> cnt + 1 < 10")
      case False
      with "1.prems"(2) Inr have "q = p3"
        by (subst (asm) closure_loop.simps) (auto simp: Let_def)
      with p3 show ?thesis by simp
    next
      case True
      with "1.prems"(2) Inr have
        rec: "fst (closure_loop u dbg is_init c (cnt + 1) (1 - m0) p3) = Inr q"
        by (subst (asm) closure_loop.simps) (auto simp: Let_def split: prod.splits)
      show ?thesis
        by (rule "1.IH" [OF refl refl refl refl refl refl refl _ _ p3 rec])
           (use Inr True in simp_all)
    qed
  qed
qed

lemma if_Inr_cases2:
  "(if a then Inr x else Inr y) = Inr q \<Longrightarrow> q = y \<or> q = x"
  by (cases a) simp_all

lemma process_emit_arc_shape:
  assumes r: "process_emit_arc u dbg c i tok_idx j p = Inr q"
    and t: "fle (fadd (fadd (cost (toks_bpr_d (lattice_processor p) tok_idx)) (arc_weights p j))
                   (fneg (loglikelihoods p (arc_ilabels p j)))) c"
  obtains ni ui q1 np where
           "find_or_add_token_arc u dbg (arc_nextstates p j)
              (fneg (loglikelihoods p (arc_ilabels p j))) i j True 0 True p = Inr (ni, ui, q1)" and
           "q = snd (atomicMax_pack ni np q1) \<or>
            q = (snd (atomicMax_pack ni np q1))
                  \<lparr>token_per_arc := (token_per_arc (snd (atomicMax_pack ni np q1)))
                     (ui := Token_ctor (fadd (fneg (loglikelihoods p (arc_ilabels p j)))
                                          (arc_weights p j))
                              (p_frame (snd (atomicMax_pack ni np q1)))
                              (Some (toks_bpr_d (lattice_processor p) tok_idx))),
                   token_per_arc_update_d :=
                     (token_per_arc_update_d (snd (atomicMax_pack ni np q1)))(ui := 1)\<rparr>"
proof -
  let ?weight = "arc_weights p j"
  let ?ac = "fneg (loglikelihoods p (arc_ilabels p j))"
  let ?tok = "toks_bpr_d (lattice_processor p) tok_idx"
  from r t have r': "thenF (find_or_add_token_arc u dbg (arc_nextstates p j) ?ac i j True 0 True p)
             (\<lambda>(next_idx, update_idx, r1).
               let new_token_pack = pack_cost_idx_into_uint64 u
                     (fneg (fadd (fadd (cost ?tok) ?weight) ?ac)) update_idx;
                   (ret, r2) = atomicMax_pack next_idx new_token_pack r1
               in if ret < new_token_pack then
                    Inr (r2\<lparr>token_per_arc := (token_per_arc r2)
                               (update_idx := Token_ctor (fadd ?ac ?weight) (p_frame r2) (Some ?tok)),
                            token_per_arc_update_d := (token_per_arc_update_d r2)(update_idx := 1)\<rparr>)
                  else Inr r2) = Inr q"
    unfolding process_emit_arc_def Let_def by (simp only: if_True)
  from thenF_Inr_D [OF r'] obtain x where
    f: "find_or_add_token_arc u dbg (arc_nextstates p j) ?ac i j True 0 True p = Inr x"
    by blast
  obtain ni ui q1 where x: "x = (ni, ui, q1)" by (cases x)
  note f' = f [unfolded x]
  note rest = r' [unfolded f' thenF_def sum.case prod.case Let_def case_prod_beta]
  note c = if_Inr_cases2 [OF rest, unfolded fst_conv snd_conv]
  show thesis by (rule that [OF f' c])
qed

lemma process_emit_arc_inv:
  assumes inv: "toks_inv p"
    and r: "process_emit_arc u dbg c i tok_idx j p = Inr q"
  shows "toks_inv q"
proof (cases "fle (fadd (fadd (cost (toks_bpr_d (lattice_processor p) tok_idx)) (arc_weights p j))
                   (fneg (loglikelihoods p (arc_ilabels p j)))) c")
  case False
  with r have "q = p" by (simp add: process_emit_arc_def Let_def)
  with inv show ?thesis by simp
next
  case True
  from r True obtain ni ui q1 np where
    f: "find_or_add_token_arc u dbg (arc_nextstates p j)
              (fneg (loglikelihoods p (arc_ilabels p j))) i j True 0 True p = Inr (ni, ui, q1)"
    and c: "q = snd (atomicMax_pack ni np q1) \<or>
            q = (snd (atomicMax_pack ni np q1))
                  \<lparr>token_per_arc := (token_per_arc (snd (atomicMax_pack ni np q1)))
                     (ui := Token_ctor (fadd (fneg (loglikelihoods p (arc_ilabels p j)))
                                          (arc_weights p j))
                              (p_frame (snd (atomicMax_pack ni np q1)))
                              (Some (toks_bpr_d (lattice_processor p) tok_idx))),
                   token_per_arc_update_d :=
                     (token_per_arc_update_d (snd (atomicMax_pack ni np q1)))(ui := 1)\<rparr>"
    by (rule process_emit_arc_shape)
  define q2 where "q2 = snd (atomicMax_pack ni np q1)"
  note q1 = find_or_add_token_arc_inv [OF inv f]
  from q1 have ti1: "toks_inv q1" by simp
  note q2 = toks_inv_atomicMax_pack [OF ti1, of ni np, folded q2_def]
  from q2 have t2: "toks_inv q2" by simp
  from c [folded q2_def] show ?thesis
  proof
    assume "q = q2"
    with t2 show ?thesis by simp
  next
    assume q: "q = q2\<lparr>token_per_arc := (token_per_arc q2)
                     (ui := Token_ctor (fadd (fneg (loglikelihoods p (arc_ilabels p j)))
                                          (arc_weights p j))
                              (p_frame q2) (Some (toks_bpr_d (lattice_processor p) tok_idx))),
                   token_per_arc_update_d := (token_per_arc_update_d q2)(ui := 1)\<rparr>"
    show ?thesis
      unfolding q by (rule toks_inv_cong [OF t2]) simp_all
  qed
qed

lemma process_emit_token_inv:
  assumes inv: "toks_inv p"
    and r: "process_emit_token u dbg c n i p = Inr q"
  shows "toks_inv q"
proof -
  from thenF_Inr_D [OF r [unfolded process_emit_token_def Let_def]]
  obtain ts :: TokenState where
    a: "thenF (GetTokenByExactIdx dbg (lattice_processor p) (tok_idx_allocated ts))
      (\<lambda>tok_idx. if hist_skip p n (toks_bpr_d (lattice_processor p) tok_idx) then Inr p
         else foldF (process_emit_arc u dbg c i tok_idx)
          [e_offsets p (state ts)..e_offsets p (state ts + 1) - 1] p) = Inr q"
    by blast
  from thenF_Inr_D [OF a] obtain tok_idx where
    f: "(if hist_skip p n (toks_bpr_d (lattice_processor p) tok_idx) then Inr p
         else foldF (process_emit_arc u dbg c i tok_idx)
          [e_offsets p (state ts)..e_offsets p (state ts + 1) - 1] p) = Inr q"
    by blast
  show ?thesis
  proof (cases "hist_skip p n (toks_bpr_d (lattice_processor p) tok_idx)")
    case True
    with f inv show ?thesis by simp
  next
    case False
    with f have f': "foldF (process_emit_arc u dbg c i tok_idx)
          [e_offsets p (state ts)..e_offsets p (state ts + 1) - 1] p = Inr q"
      by simp
    show ?thesis
      by (rule foldF_inv [where I = toks_inv, OF _ inv f']) (rule process_emit_arc_inv)
  qed
qed

lemma frame_inv_False: "frame_inv False c A p = toks_inv p"
  by (simp add: frame_inv_def)

lemma process_emitting_tokens_inv:
  assumes inv: "toks_inv p"
    and r: "process_emitting_tokens u dbg p = Inr q"
  shows "toks_inv q"
proof -
  from thenF_Inr_D [OF r [unfolded process_emitting_tokens_def Let_def]]
  obtain p1 where
    f: "foldF (process_emit_token u dbg (cutoff p) (Size (prev_toks p)))
          [pe_idx p..Size (prev_toks p) - 1] p = Inr p1"
    and s: "StoreDataByPackIdx u dbg (numArcs p1)
              (p1\<lparr>pe_idx := max (pe_idx p) (Size (prev_toks p)) + 1\<rparr>) = Inr q"
    by blast
  have "toks_inv p1"
    by (rule foldF_inv [where I = toks_inv, OF _ inv f]) (rule process_emit_token_inv)
  then have "toks_inv (p1\<lparr>pe_idx := max (pe_idx p) (Size (prev_toks p)) + 1\<rparr>)"
    by (rule toks_inv_cong) simp_all
  then have "frame_inv False INFINITY (\<lambda>_. undefined)
               (p1\<lparr>pe_idx := max (pe_idx p) (Size (prev_toks p)) + 1\<rparr>)"
    by (simp only: frame_inv_False)
  from StoreDataByPackIdx_inv [OF this s] show ?thesis
    by (simp only: frame_inv_False)
qed

lemma find_best_cutoff_shape:
  assumes "find_best_cutoff u dbg p = Inr q"
  shows "\<exists>cp fb cv. q = p\<lparr>cutoff_prev := cp, fb_idx := fb, cutoff := cv\<rparr>"
proof -
  from thenF_Inr_D [OF assms [unfolded find_best_cutoff_def Let_def]]
  obtain p1 where a: "(if Size (prev_toks p) > max_active p \<and> p_frame p > 1
                then find_prev_cutoff_by_histogram u dbg p else Inr p) = Inr p1"
    and b: "thenF (foldF (cutoff_token dbg p1 (Size (prev_toks p))) [fb_idx p1..Size (prev_toks p) - 1]
                 (\<lambda>lane. INFINITY)) (\<lambda>local_cutoff.
           Inr (p1\<lparr>fb_idx := max (fb_idx p1) (Size (prev_toks p)) + 1,
                   cutoff := fold (\<lambda>lane c. if fne (local_cutoff lane) INFINITY
                                            then atomic_min c (local_cutoff lane) else c)
                               [0..blockDimx - 1] (cutoff p1)\<rparr>)) = Inr q"
    by blast
  from a have "\<exists>cp. p1 = p\<lparr>cutoff_prev := cp\<rparr>"
  proof (cases "Size (prev_toks p) > max_active p \<and> p_frame p > 1")
    case True
    with a have "find_prev_cutoff_by_histogram u dbg p = Inr p1" by simp
    from thenF_Inr_D [OF this [unfolded find_prev_cutoff_by_histogram_def]]
    show ?thesis by blast
  next
    case False
    with a have "p1 = p\<lparr>cutoff_prev := cutoff_prev p\<rparr>" by simp
    then show ?thesis by blast
  qed
  then obtain cp where p1: "p1 = p\<lparr>cutoff_prev := cp\<rparr>" by blast
  from thenF_Inr_D [OF b] obtain lc where
    "q = p1\<lparr>fb_idx := max (fb_idx p1) (Size (prev_toks p)) + 1,
                   cutoff := fold (\<lambda>lane c. if fne (lc lane) INFINITY
                                            then atomic_min c (lc lane) else c)
                               [0..blockDimx - 1] (cutoff p1)\<rparr>"
    by auto
  then show ?thesis unfolding p1 by blast
qed

lemma thenF_Inr: "thenF (Inr x) f = f x"
  by (simp add: thenF_def)

lemma cutoff_atomicMax_pack: "cutoff (snd (atomicMax_pack ni np p)) = cutoff p"
  by (simp add: atomicMax_pack_def Let_def)

lemma process_tokens_tail:
  assumes "thenF (CollectToksPerFrame (cur_toks p4) (p_frame p4) (lattice_processor p4)) (\<lambda>lp1.
          thenF (CollectArcsPerFrame (lat_arcs_sub_vec p4) (p_frame p4)
                   (lp1\<lparr>arcs_bpr_d := mem_d (lat_arcs_sub_vec p4)\<rparr>)) (\<lambda>lp2.
            Inr ((initialize_visited_states (p4\<lparr>lattice_processor := lp2,
                        num_arcs_till_last := Size (lat_arcs_sub_vec p4)\<rparr>))
                 \<lparr>cutoff := INFINITY, fb_idx := 0, pe_idx := 0\<rparr>))) = Inr q"
  shows "cutoff q = INFINITY \<and> cur_toks q = cur_toks p4 \<and>
         toks_bpr_d (lattice_processor q) = toks_bpr_d (lattice_processor p4)"
proof -
  from thenF_Inr_D [OF assms] obtain lp1 where
    a: "CollectToksPerFrame (cur_toks p4) (p_frame p4) (lattice_processor p4) = Inr lp1"
    and b: "thenF (CollectArcsPerFrame (lat_arcs_sub_vec p4) (p_frame p4)
                   (lp1\<lparr>arcs_bpr_d := mem_d (lat_arcs_sub_vec p4)\<rparr>)) (\<lambda>lp2.
            Inr ((initialize_visited_states (p4\<lparr>lattice_processor := lp2,
                        num_arcs_till_last := Size (lat_arcs_sub_vec p4)\<rparr>))
                 \<lparr>cutoff := INFINITY, fb_idx := 0, pe_idx := 0\<rparr>)) = Inr q"
    by blast
  from thenF_Inr_D [OF b] obtain lp2 where
    c: "CollectArcsPerFrame (lat_arcs_sub_vec p4) (p_frame p4)
                   (lp1\<lparr>arcs_bpr_d := mem_d (lat_arcs_sub_vec p4)\<rparr>) = Inr lp2"
    and q: "q = (initialize_visited_states (p4\<lparr>lattice_processor := lp2,
                        num_arcs_till_last := Size (lat_arcs_sub_vec p4)\<rparr>))
                \<lparr>cutoff := INFINITY, fb_idx := 0, pe_idx := 0\<rparr>"
    by auto
  from a have t1: "toks_bpr_d lp1 = toks_bpr_d (lattice_processor p4)"
    by (auto simp: CollectToksPerFrame_def Let_def dest!: thenF_Inr_D split: if_splits)
  from c have t2: "toks_bpr_d lp2 = toks_bpr_d lp1"
    by (auto simp: CollectArcsPerFrame_def Let_def dest!: thenF_Inr_D split: if_splits)
  show ?thesis
    by (simp add: q initialize_visited_states_def t1 t2)
qed

lemma StoreDataByPackIdx_toks_inv:
  assumes "toks_inv p" and "StoreDataByPackIdx u dbg b p = Inr q"
  shows "toks_inv q"
proof -
  from assms(1) have "frame_inv False INFINITY (toks_bpr_d (lattice_processor p)) p"
    by (simp only: frame_inv_False)
  from StoreDataByPackIdx_inv [OF this assms(2)] show ?thesis
    by (simp only: frame_inv_False)
qed

lemma process_tokens_Inr_E:
  assumes r: "process_tokens u dbg is_init p = Inr q"
  obtains p1 p3 p4 where
    "(if \<not> is_init
      then thenF (find_best_cutoff u dbg p)
             (\<lambda>p1. Inr (p1\<lparr>histogram_prev_toks := fsub (cutoff p1) (beam p1)\<rparr>))
      else Inr (p\<lparr>num_arcs_till_last := 0\<rparr>)) = Inr p1"
    and "(if \<not> is_init
          then process_emitting_tokens u dbg (p1\<lparr>modified := (modified p1)(0 := 0, 1 := 0)\<rparr>)
          else Inr (p1\<lparr>modified := (modified p1)(0 := 0, 1 := 0)\<rparr>)) = Inr p3"
    and "fst (closure_loop u dbg is_init (cutoff p1) 0 0 p3) = Inr p4"
    and "cutoff q = INFINITY \<and> cur_toks q = cur_toks p4 \<and>
         toks_bpr_d (lattice_processor q) = toks_bpr_d (lattice_processor p4)"
proof -
  note r0 = r [unfolded process_tokens_def Let_def]
  from thenF_Inr_D [OF r0] obtain p1 where
    a1: "(if \<not> is_init
          then thenF (find_best_cutoff u dbg p)
                 (\<lambda>p1. Inr (p1\<lparr>histogram_prev_toks := fsub (cutoff p1) (beam p1)\<rparr>))
          else Inr (p\<lparr>num_arcs_till_last := 0\<rparr>)) = Inr p1"
    by blast
  note r1 = r0 [unfolded a1 thenF_Inr]
  from thenF_Inr_D [OF r1] obtain p3 where
    a3: "(if \<not> is_init
          then process_emitting_tokens u dbg (p1\<lparr>modified := (modified p1)(0 := 0, 1 := 0)\<rparr>)
          else Inr (p1\<lparr>modified := (modified p1)(0 := 0, 1 := 0)\<rparr>)) = Inr p3"
    by blast
  note r3 = r1 [unfolded a3 thenF_Inr]
  from thenF_Inr_D [OF r3] obtain p4 where
    a4: "fst (closure_loop u dbg is_init (cutoff p1) 0 0 p3) = Inr p4"
    by blast
  note r4 = r3 [unfolded a4 thenF_Inr]
  note tail = process_tokens_tail [OF r4]
  show thesis by (rule that [OF a1 a3 a4 tail])
qed

lemma process_tokens_inv:
  assumes inv: "frame_inv (G \<and> is_init) (cutoff p) A p"
    and r: "process_tokens u dbg is_init p = Inr q"
  shows "uniq_states q \<and>
     (G \<and> is_init \<longrightarrow>
        (\<forall>a. toks_bpr_d (lattice_processor q) a = A a \<or>
             fle (cost (toks_bpr_d (lattice_processor q) a)) (cutoff p)))"
proof -
  from r obtain p1 p3 p4 where
    a1: "(if \<not> is_init
          then thenF (find_best_cutoff u dbg p)
                 (\<lambda>p1. Inr (p1\<lparr>histogram_prev_toks := fsub (cutoff p1) (beam p1)\<rparr>))
          else Inr (p\<lparr>num_arcs_till_last := 0\<rparr>)) = Inr p1"
    and a3: "(if \<not> is_init
          then process_emitting_tokens u dbg (p1\<lparr>modified := (modified p1)(0 := 0, 1 := 0)\<rparr>)
          else Inr (p1\<lparr>modified := (modified p1)(0 := 0, 1 := 0)\<rparr>)) = Inr p3"
    and a4: "fst (closure_loop u dbg is_init (cutoff p1) 0 0 p3) = Inr p4"
    and tail: "cutoff q = INFINITY \<and> cur_toks q = cur_toks p4 \<and>
         toks_bpr_d (lattice_processor q) = toks_bpr_d (lattice_processor p4)"
    by (rule process_tokens_Inr_E)
  have i1: "frame_inv (G \<and> is_init) (cutoff p1) A p1 \<and> (is_init \<longrightarrow> cutoff p1 = cutoff p)"
  proof (cases is_init)
    case True
    with a1 have p1: "p1 = p\<lparr>num_arcs_till_last := 0\<rparr>" by simp
    have "frame_inv (G \<and> is_init) (cutoff p) A p1"
      unfolding p1 by (rule frame_inv_cong [OF inv]) simp_all
    then show ?thesis by (simp add: p1)
  next
    case False
    with a1 have "thenF (find_best_cutoff u dbg p)
                 (\<lambda>p1. Inr (p1\<lparr>histogram_prev_toks := fsub (cutoff p1) (beam p1)\<rparr>)) = Inr p1"
      by simp
    from thenF_Inr_D [OF this] obtain q0 where
      f: "find_best_cutoff u dbg p = Inr q0"
      and p1: "p1 = q0\<lparr>histogram_prev_toks := fsub (cutoff q0) (beam q0)\<rparr>"
      by auto
    from find_best_cutoff_shape [OF f] obtain cp fb cv where
      q0: "q0 = p\<lparr>cutoff_prev := cp, fb_idx := fb, cutoff := cv\<rparr>" by blast
    from inv have "toks_inv p" by (simp add: frame_inv_def)
    then have "toks_inv p1"
      by (rule toks_inv_cong) (simp_all add: p1 q0)
    with False show ?thesis by (simp add: frame_inv_def)
  qed
  then have f1: "frame_inv (G \<and> is_init) (cutoff p1) A p1" by simp
  have i3: "frame_inv (G \<and> is_init) (cutoff p1) A p3"
  proof (cases is_init)
    case True
    with a3 have p3: "p3 = p1\<lparr>modified := (modified p1)(0 := 0, 1 := 0)\<rparr>" by simp
    show ?thesis
      unfolding p3 by (rule frame_inv_cong [OF f1]) simp_all
  next
    case False
    with a3 have e: "process_emitting_tokens u dbg
        (p1\<lparr>modified := (modified p1)(0 := 0, 1 := 0)\<rparr>) = Inr p3"
      by simp
    from f1 have "toks_inv p1" by (simp add: frame_inv_def)
    then have "toks_inv (p1\<lparr>modified := (modified p1)(0 := 0, 1 := 0)\<rparr>)"
      by (rule toks_inv_cong) simp_all
    from process_emitting_tokens_inv [OF this e] False show ?thesis
      by (simp add: frame_inv_def)
  qed
  note i4 = closure_loop_inv [OF i3 a4]
  from i4 have "uniq_states p4" by (simp add: frame_inv_def toks_inv_def)
  then have "uniq_states q"
    unfolding uniq_states_def using tail by simp
  moreover have "\<forall>a. toks_bpr_d (lattice_processor q) a = A a \<or>
             fle (cost (toks_bpr_d (lattice_processor q) a)) (cutoff p)" if "G \<and> is_init"
  proof -
    from i4 that have "temp_tokens_below (cutoff p1) A p4" by (simp add: frame_inv_def)
    moreover from i1 that have "cutoff p1 = cutoff p" by simp
    ultimately show ?thesis using tail by (simp add: temp_tokens_below_def)
  qed
  ultimately show ?thesis by blast
qed

lemma process_tokens_cutoff:
  assumes "process_tokens u dbg is_init p = Inr q"
  shows "cutoff q = INFINITY"
  using assms by (rule process_tokens_Inr_E) simp

lemma activate_token_cutoff:
  assumes "activate_token u dbg s p = Inr q"
  shows "cutoff q = cutoff p"
proof -
  from thenF_Inr_D [OF assms [unfolded activate_token_def]] obtain r where
    rest: "(case r of (tokenstate_idx, v) \<Rightarrow>
       let p1 = p\<lparr>cur_toks := v,
                  current_tokens_lookup := (current_tokens_lookup p)(s := tokenstate_idx)\<rparr>
       in thenF (GetTokenAllocIdx dbg (lattice_processor p1) tokenstate_idx) (\<lambda>alloc.
          thenF (vec_at (cur_toks p1) tokenstate_idx) (\<lambda>ts.
            Inr (p1\<lparr>cur_toks := (cur_toks p1)\<lparr>mem_d := (mem_d (cur_toks p1))
                       (tokenstate_idx := ts\<lparr>tok_idx_allocated := alloc\<rparr>)\<rparr>\<rparr>)))) = Inr q"
    by blast
  obtain idx v where r: "r = (idx, v)" by (cases r)
  from rest [unfolded r] show ?thesis
    by (auto simp: Let_def dest!: thenF_Inr_D)
qed

lemma find_or_add_token_arc_cutoff:
  assumes f: "find_or_add_token_arc u dbg s ac ts_idx j add_arc ui0 is_emit p = Inr (ni, ui, q)"
  shows "cutoff q = cutoff p"
proof -
  from thenF_Inr_D [OF f [unfolded find_or_add_token_arc_def]] obtain q1 where
    a: "(if current_tokens_lookup p s = LOOKUP_DEACTIVE
         then activate_token u dbg s p else Inr p) = Inr q1"
    and r: "(let idx = current_tokens_lookup q1 s
       in if idx = LOOKUP_DEACTIVE \<or> idx = LOOKUP_READY_PUSH then Inl SpinsForever
          else thenF (vec_at (cur_toks q1) idx) (\<lambda>next_ts.
                 if add_arc
                 then thenF (add_lattice_arc dbg idx ac ts_idx j is_emit q1) (\<lambda>(ret, p2).
                        Inr (idx, ret, p2))
                 else Inr (idx, ui0, q1))) = Inr (ni, ui, q)"
    by blast
  from a have q1: "cutoff q1 = cutoff p"
    by (cases "current_tokens_lookup p s = LOOKUP_DEACTIVE") (auto dest: activate_token_cutoff)
  have "q = q1 \<or> (\<exists>av. q = q1\<lparr>lat_arcs_sub_vec := av\<rparr>)"
    using r by (auto simp: Let_def dest!: thenF_Inr_D add_lattice_arc_Inr_D split: if_splits)
  with q1 show ?thesis by auto
qed

lemma add_initial_token_cutoff:
  assumes r: "add_initial_token u dbg st p = Inr q"
  shows "cutoff q = Fin 100"
proof -
  note r0 = r [unfolded add_initial_token_def Let_def]
  from thenF_Inr_D [OF r0] obtain x where
    f: "find_or_add_token_arc u dbg st (Fin 0) 0 0 False 0 False (initialize_cutoff p) = Inr x"
    by blast
  obtain ni ui q1 where x: "x = (ni, ui, q1)" by (cases x)
  note f' = f [unfolded x]
  note rest = r0 [unfolded f' thenF_Inr prod.case case_prod_beta fst_conv snd_conv]
  show ?thesis
    unfolding StoreDataByPackIdx_cutoff [OF rest] cutoff_atomicMax_pack
    using find_or_add_token_arc_cutoff [OF f'] by (simp add: initialize_cutoff_def)
qed

lemma frame_inv_atomicMax_pack:
  assumes "frame_inv G c A p"
  shows "frame_inv G c A (snd (atomicMax_pack ni np p))"
proof -
  from assms have t: "toks_inv p" by (simp add: frame_inv_def)
  note m = toks_inv_atomicMax_pack [OF t, of ni np]
  have "temp_tokens_below c A (snd (atomicMax_pack ni np p))" if G
  proof -
    from assms that have "temp_tokens_below c A p" by (simp add: frame_inv_def)
    then show ?thesis by (rule temp_tokens_below_cong) (simp_all add: m)
  qed
  with m show ?thesis by (simp add: frame_inv_def)
qed

lemma frame_inv_I:
  "toks_inv p \<Longrightarrow> (G \<Longrightarrow> temp_tokens_below c A p) \<Longrightarrow> frame_inv G c A p"
  by (simp add: frame_inv_def)

lemma add_initial_token_frame_inv:
  assumes inv: "frame_inv G (Fin 100) A p" and r: "add_initial_token u dbg st p = Inr q"
  shows "frame_inv G (Fin 100) A q"
proof -
  note r0 = r [unfolded add_initial_token_def Let_def]
  from thenF_Inr_D [OF r0] obtain x where
    f: "find_or_add_token_arc u dbg st (Fin 0) 0 0 False 0 False (initialize_cutoff p) = Inr x"
    by blast
  obtain ni ui q1 where x: "x = (ni, ui, q1)" by (cases x)
  note f' = f [unfolded x]
  note rest = r0 [unfolded f' thenF_Inr prod.case case_prod_beta fst_conv snd_conv]
  from inv have t: "toks_inv p" by (simp add: frame_inv_def)
  then have "toks_inv (initialize_cutoff p)"
    by (rule toks_inv_cong) (simp_all add: initialize_cutoff_def)
  note q1 = find_or_add_token_arc_inv [OF this f']
  from q1 have t1: "toks_inv q1" by simp
  have b1: "temp_tokens_below (Fin 100) A q1" if G
  proof -
    from inv that have "temp_tokens_below (Fin 100) A p" by (simp add: frame_inv_def)
    then show ?thesis
      by (rule temp_tokens_below_cong) (simp_all add: q1 initialize_cutoff_def)
  qed
  show ?thesis
  proof (rule StoreDataByPackIdx_inv [OF _ rest], rule frame_inv_atomicMax_pack, rule frame_inv_I)
    show "toks_inv (q1\<lparr>token_per_arc_update_d := (token_per_arc_update_d q1)(ui := 1),
             token_per_arc := (token_per_arc
                (q1\<lparr>token_per_arc_update_d := (token_per_arc_update_d q1)(ui := 1)\<rparr>))
                (ui := Token_ctor (Fin 0)
                   (p_frame (q1\<lparr>token_per_arc_update_d := (token_per_arc_update_d q1)(ui := 1)\<rparr>))
                   None)\<rparr>)"
      by (rule toks_inv_cong [OF t1]) simp_all
  next
    assume G
    from b1 [OF this]
    show "temp_tokens_below (Fin 100) A
           (q1\<lparr>token_per_arc_update_d := (token_per_arc_update_d q1)(ui := 1),
             token_per_arc := (token_per_arc
                (q1\<lparr>token_per_arc_update_d := (token_per_arc_update_d q1)(ui := 1)\<rparr>))
                (ui := Token_ctor (Fin 0)
                   (p_frame (q1\<lparr>token_per_arc_update_d := (token_per_arc_update_d q1)(ui := 1)\<rparr>))
                   None)\<rparr>)"
      by (simp add: temp_tokens_below_def Token_ctor_def)
  qed
qed


lemma find_or_add_token_arc_reuse:
  assumes "current_tokens_lookup p s \<noteq> LOOKUP_DEACTIVE"
    and f: "find_or_add_token_arc u dbg s ac ts_idx j add_arc ui0 is_emit p = Inr (ni, ui, q)"
  shows "cur_toks q = cur_toks p \<and> ni = current_tokens_lookup p s"
proof -
  from f assms(1) have r: "(let idx = current_tokens_lookup p s
       in if idx = LOOKUP_DEACTIVE \<or> idx = LOOKUP_READY_PUSH then Inl SpinsForever
          else thenF (vec_at (cur_toks p) idx) (\<lambda>next_ts.
                 if add_arc
                 then thenF (add_lattice_arc dbg idx ac ts_idx j is_emit p) (\<lambda>(ret, p2).
                        Inr (idx, ret, p2))
                 else Inr (idx, ui0, p))) = Inr (ni, ui, q)"
    by (simp add: find_or_add_token_arc_def thenF_Inr)
  then show ?thesis
    by (auto simp: Let_def dest!: thenF_Inr_D add_lattice_arc_Inr_D split: if_splits)
qed

lemma find_or_add_token_arc_push:
  assumes inv: "toks_inv p" and d: "current_tokens_lookup p s = LOOKUP_DEACTIVE"
    and f: "find_or_add_token_arc u dbg s ac ts_idx j add_arc ui0 is_emit p = Inr (ni, ui, q)"
  shows "count_d (cur_toks q) = count_d (cur_toks p) + 1 \<and> ni = count_d (cur_toks p) \<and>
         state (mem_d (cur_toks q) ni) = s"
proof -
  from thenF_Inr_D [OF f [unfolded find_or_add_token_arc_def]] d obtain q1 where
    a: "activate_token u dbg s p = Inr q1"
    and r: "(let idx = current_tokens_lookup q1 s
       in if idx = LOOKUP_DEACTIVE \<or> idx = LOOKUP_READY_PUSH then Inl SpinsForever
          else thenF (vec_at (cur_toks q1) idx) (\<lambda>next_ts.
                 if add_arc
                 then thenF (add_lattice_arc dbg idx ac ts_idx j is_emit q1) (\<lambda>(ret, p2).
                        Inr (idx, ret, p2))
                 else Inr (idx, ui0, q1))) = Inr (ni, ui, q)"
    by auto
  from inv have mx: "0 < max_size (cur_toks p)" "max_size (cur_toks p) < 2 ^ 32"
    by (simp_all add: toks_inv_def)
  from activate_token_Inr_D [OF a mx] obtain alloc where
    q1: "q1 = p\<lparr>cur_toks := (cur_toks p)
                          \<lparr>count_d := count_d (cur_toks p) + 1,
                           mem_d := (mem_d (cur_toks p))(count_d (cur_toks p) :=
                              (TokenState_ctor u s)\<lparr>tok_idx_allocated := alloc\<rparr>)\<rparr>,
                        current_tokens_lookup :=
                          (current_tokens_lookup p)(s := count_d (cur_toks p))\<rparr>"
    by blast
  have c1: "count_d (cur_toks q1) = count_d (cur_toks p) + 1"
    and l1: "current_tokens_lookup q1 s = count_d (cur_toks p)"
    and s1: "state (mem_d (cur_toks q1) (count_d (cur_toks p))) = s"
    by (simp_all add: q1 TokenState_ctor_def)
  have "ni = current_tokens_lookup q1 s \<and> cur_toks q = cur_toks q1"
    using r by (auto simp: Let_def dest!: thenF_Inr_D add_lattice_arc_Inr_D split: if_splits)
  with c1 l1 s1 show ?thesis by simp
qed



text \<open>
  Claim C10. \<open>_add_initial_token\<close> leaves the cutoff at 100, whatever the beam. With that
  cutoff the closure of frame 0 writes no Token of a cost above 100 into the arena: every
  Token of the arena is the one that was there before the utterance started, or costs at
  most 100 (the temporary tokens that are flagged at the start are assumed to cost at
  most 100). \<open>_process_tokens\<close> ends every frame with the cutoff at infinity.
\<close>

theorem initial_cutoff_is_100:
  "(add_initial_token u dbg st p = Inr p0 \<longrightarrow> cutoff p0 = Fin 100) \<and>
   (toks_inv p \<and> temp_tokens_below (Fin 100) (toks_bpr_d (lattice_processor p)) p \<and>
    add_initial_token u dbg st p = Inr p0 \<and> process_tokens u dbg True p0 = Inr q \<longrightarrow>
      (\<forall>a. toks_bpr_d (lattice_processor q) a = toks_bpr_d (lattice_processor p) a \<or>
           fle (cost (toks_bpr_d (lattice_processor q) a)) (Fin 100))) \<and>
   (process_tokens u dbg is_init p = Inr r \<longrightarrow> cutoff r = INFINITY)"
proof (intro conjI impI)
  assume "add_initial_token u dbg st p = Inr p0"
  then show "cutoff p0 = Fin 100" by (rule add_initial_token_cutoff)
next
  assume "process_tokens u dbg is_init p = Inr r"
  then show "cutoff r = INFINITY" by (rule process_tokens_cutoff)
next
  let ?A = "toks_bpr_d (lattice_processor p)"
  assume h: "toks_inv p \<and> temp_tokens_below (Fin 100) ?A p \<and>
    add_initial_token u dbg st p = Inr p0 \<and> process_tokens u dbg True p0 = Inr q"
  then have "frame_inv True (Fin 100) ?A p" by (simp add: frame_inv_def)
  moreover from h have a: "add_initial_token u dbg st p = Inr p0" by simp
  ultimately have i0: "frame_inv True (Fin 100) ?A p0"
    by (rule add_initial_token_frame_inv)
  from a have c0: "cutoff p0 = Fin 100" by (rule add_initial_token_cutoff)
  from i0 have i: "frame_inv (True \<and> True) (cutoff p0) ?A p0" by (simp add: c0)
  from h have r: "process_tokens u dbg True p0 = Inr q" by simp
  from process_tokens_inv [OF i r] c0
  show "\<forall>a. toks_bpr_d (lattice_processor q) a = ?A a \<or>
           fle (cost (toks_bpr_d (lattice_processor q) a)) (Fin 100)"
    by simp
qed

theorem initial_cutoff_is_100_witness:
  "toks_inv example_far \<and>
   temp_tokens_below (Fin 100) (toks_bpr_d (lattice_processor example_far)) example_far \<and>
   beam example_far = Fin 1000 \<and>
   (case add_initial_token example_utils False 0 example_far of
      Inl e \<Rightarrow> False
    | Inr p0 \<Rightarrow> cutoff p0 = Fin 100) \<and>
   (case example_far0 of
      Inl e \<Rightarrow> False
    | Inr q \<Rightarrow>
        cutoff q = INFINITY \<and> count_d (cur_toks q) = 1 \<and>
        (\<forall>a. toks_bpr_d (lattice_processor q) a = toks_bpr_d (lattice_processor example_far) a \<or>
             fle (cost (toks_bpr_d (lattice_processor q) a)) (Fin 100)))"
proof -
  have t: "toks_inv example_far"
    by (simp add: toks_inv_def uniq_states_def example_far_def example_params_def)
  have b: "temp_tokens_below (Fin 100) (toks_bpr_d (lattice_processor example_far)) example_far"
    by (simp add: temp_tokens_below_def example_far_def example_params_def)
  have bm: "beam example_far = Fin 1000"
    by (simp add: example_far_def)
  have e: "case example_far0 of Inl e \<Rightarrow> False | Inr r \<Rightarrow> count_d (cur_toks r) = 1"
    by code_simp
  then obtain q where q: "example_far0 = Inr q" and c: "count_d (cur_toks q) = 1"
    by (auto split: sum.splits)
  from thenF_Inr_D [OF q [unfolded example_far0_def]] obtain p0 where
    a: "add_initial_token example_utils False 0 example_far = Inr p0"
    and r: "process_tokens example_utils False True p0 = Inr q"
    by blast
  note main = initial_cutoff_is_100 [of example_utils False 0 example_far p0 q]
  from main [of True q, THEN conjunct1] a have c0: "cutoff p0 = Fin 100" by simp
  from main [of True q, THEN conjunct2, THEN conjunct1] t b a r
  have ar: "\<forall>a. toks_bpr_d (lattice_processor q) a = toks_bpr_d (lattice_processor example_far) a \<or>
           fle (cost (toks_bpr_d (lattice_processor q) a)) (Fin 100)"
    by simp
  from initial_cutoff_is_100 [of example_utils False 0 p0 p0 q True q, THEN conjunct2, THEN conjunct2] r
  have ci: "cutoff q = INFINITY" by simp
  show ?thesis
    unfolding a q sum.case using t b bm c0 ci c ar by simp
qed

text \<open>
  Claim C3, at frame 1. \<open>example_frame1\<close> has two tokens in \<open>prev_toks\<close> and \<open>max_active = 1\<close>;
  \<open>cutoff_prev\<close> holds 0.05, a value that no histogram of this frame produced, because
  the histogram is built only when \<open>frame > 1\<close>. The token of state 1 (cost 0.1) is
  skipped all the same, in the cutoff pass and in the expansion.
\<close>

theorem frame_1_skips_without_histogram:
  "p_frame example_frame1 = 1 \<and> Size (prev_toks example_frame1) = 2 \<and>
   max_active example_frame1 = 1 \<and>
   (max_active example_frame1 < Size (prev_toks example_frame1) \<and> 1 < p_frame example_frame1) = False \<and>
   hist_skip example_frame1 (Size (prev_toks example_frame1))
     (toks_bpr_d (lattice_processor example_frame1) 1) \<and>
   (case cutoff_token False example_frame1 2 1 (\<lambda>lane. INFINITY) of
      Inl e \<Rightarrow> False
    | Inr local_cutoff \<Rightarrow> list_all (\<lambda>lane. local_cutoff lane = INFINITY) [0..31]) \<and>
   (case cutoff_token False (example_frame1\<lparr>max_active := 2\<rparr>) 2 1 (\<lambda>lane. INFINITY) of
      Inl e \<Rightarrow> False
    | Inr local_cutoff \<Rightarrow> local_cutoff 0 = Fin (22 / 10)) \<and>
   (case process_emit_token example_utils False (Fin (23 / 10)) 2 1 example_frame1 of
      Inl e \<Rightarrow> False
    | Inr q \<Rightarrow> count_d (cur_toks q) = 0 \<and> count_d (lat_arcs_sub_vec q) = 0) \<and>
   (case process_emit_token example_utils False (Fin (23 / 10)) 2 1
           (example_frame1\<lparr>max_active := 2\<rparr>) of
      Inl e \<Rightarrow> False
    | Inr q \<Rightarrow> count_d (cur_toks q) = 1 \<and> count_d (lat_arcs_sub_vec q) = 1)"
  by code_simp

end
